theory Spec2Isabelle
  imports Complex_Main "HOL-Library.Sublist"
begin

section \<open>Values of the program\<close>

text \<open>
  A JavaScript string is a sequence of UTF-16 code units, and \<open>.length\<close> counts them;
  \<open>ascii\<close> writes an ASCII literal as such a sequence.  Numbers that the program
  adds or compares (quotas, identifiers) are integers; the one quotient it computes
  (quota divided by 500000) is kept exact as a rational.

  Fields have the types the program expects of them (a name is a string, a quota a
  number, a token list an array), and a field that may be missing is an \<open>option\<close>.
  Console output and the random pauses are left out: no result and no call depends on
  them.  A call carries the user id as the login answered it; the request header shows
  its rendering \<open>String(apiUser)\<close>, which is also what the run returns as \<open>apiUser\<close>.
\<close>

type_synonym jstring = "nat list"

definition ascii :: "string \<Rightarrow> jstring" where
  "ascii s = map of_char s"

text \<open>The marker of a token that is for sale: the code units U+51FA, U+552E and \<open>_\<close>.\<close>

definition sell_prefix :: jstring where
  "sell_prefix = [0x51FA, 0x552E, 0x5F]"

text \<open>\<open>s.startsWith(p)\<close>, written out on code units.\<close>

fun startsWith :: "jstring \<Rightarrow> jstring \<Rightarrow> bool" where
  "startsWith s [] = True"
| "startsWith [] (p # ps) = False"
| "startsWith (c # cs) (p # ps) = (c = p \<and> startsWith cs ps)"

text \<open>An identifier is a number or a string; a field that is absent is \<open>None\<close>.\<close>

datatype jsid = IdNum int | IdStr jstring

text \<open>
  \<open>String(x)\<close> for an identifier: a string is itself, an integer is written in decimal
  digits, with a minus sign when negative.
\<close>

fun digits :: "nat \<Rightarrow> jstring" where
  "digits n = (if n < 10 then [48 + n] else digits (n div 10) @ [48 + n mod 10])"

declare digits.simps [simp del]

definition jsString :: "jsid \<Rightarrow> jstring" where
  "jsString x =
     (case x of
        IdStr s \<Rightarrow> s
      | IdNum n \<Rightarrow> if n < 0 then 45 # digits (nat (- n)) else digits (nat n))"

text \<open>JavaScript truthiness of an optional field, by the type of the field.\<close>

fun truthy_id :: "jsid option \<Rightarrow> bool" where
  "truthy_id None = False"
| "truthy_id (Some (IdNum n)) = (n \<noteq> 0)"
| "truthy_id (Some (IdStr s)) = (s \<noteq> [])"

fun truthy_str :: "jstring option \<Rightarrow> bool" where
  "truthy_str None = False"
| "truthy_str (Some s) = (s \<noteq> [])"

fun truthy_num :: "int option \<Rightarrow> bool" where
  "truthy_num None = False"
| "truthy_num (Some n) = (n \<noteq> 0)"

fun truthy_bool :: "bool option \<Rightarrow> bool" where
  "truthy_bool None = False"
| "truthy_bool (Some b) = b"

text \<open>\<open>x || d\<close> for a string and for a number.\<close>

fun str_or :: "jstring option \<Rightarrow> jstring \<Rightarrow> jstring" where
  "str_or None d = d"
| "str_or (Some s) d = (if s = [] then d else s)"

fun num_or :: "int option \<Rightarrow> int \<Rightarrow> int" where
  "num_or None d = d"
| "num_or (Some n) d = (if n = 0 then d else n)"

text \<open>An element of \<open>accountInfo.tokens\<close>: what the caller wants done with one token.\<close>

record token_config =
  cfg_id :: "jsid option"
  cfg_name :: "jstring option"
  cfg_is_deleted :: "bool option"
  cfg_unlimited_quota :: "bool option"
  cfg_remain_quota :: "int option"
  cfg_supplement_quota :: "int option"

text \<open>A token as the gateway lists it; \<open>tok_other\<close> holds the fields the program never reads.\<close>

record token =
  tok_id :: "jsid option"
  tok_key :: "jstring option"
  tok_name :: "jstring option"
  tok_unlimited_quota :: "bool option"
  tok_used_quota :: "int option"
  tok_remain_quota :: "int option"
  tok_other :: "(jstring \<times> jstring) list"

text \<open>The \<open>tokenConfig\<close> argument of \<open>createToken\<close> and the request body built from it.\<close>

record create_config =
  cc_unlimited_quota :: "bool option"
  cc_remain_quota :: "int option"
  cc_name :: "jstring option"

record request_body =
  rb_name :: jstring
  rb_expired_time :: int
  rb_model_limits_enabled :: bool
  rb_model_limits :: jstring
  rb_allow_ips :: jstring
  rb_group :: jstring
  rb_unlimited_quota :: "bool option"
  rb_remain_quota :: "int option"

text \<open>An entry of \<open>pendingSellTokenNames\<close>.\<close>

record pending_sell =
  ps_name :: jstring
  ps_remain_quota :: "int option"

text \<open>A key as given to \<open>addKeys\<close>, and the item \<open>addKeys\<close> posts for it.\<close>

record key_data =
  kd_key :: "jstring option"
  kd_key_type :: "jstring option"
  kd_is_sold :: "bool option"
  kd_quota :: "rat option"
  kd_source_name :: "jstring option"
  kd_account_id :: "jstring option"

record key_item =
  ki_key :: jstring
  ki_key_type :: jstring
  ki_quota :: rat
  ki_is_sold :: bool
  ki_source_name :: "jstring option"
  ki_account_id :: "jstring option"

text \<open>The token fields kept in the returned user data.\<close>

record token_view =
  tv_id :: "jsid option"
  tv_key :: "jstring option"
  tv_name :: "jstring option"
  tv_unlimited_quota :: "bool option"
  tv_used_quota :: "int option"
  tv_remain_quota :: "int option"
  tv_supplement_quota :: int

record user_data =
  ud_id :: "jsid option"
  ud_username :: "jstring option"
  ud_email :: "jstring option"
  ud_quota :: int
  ud_used_quota :: int
  ud_aff_code :: "jstring option"
  ud_aff_quota :: "int option"
  ud_tokens :: "token_view list option"

text \<open>The optional \<open>accountInfo\<close> argument, and an entry of the list given to \<open>processAccounts\<close>.\<close>

record account_info =
  ai_id :: "jstring option"
  ai_username :: "jstring option"
  ai_tokens :: "token_config list option"

record account =
  acc_username :: jstring
  acc_password :: jstring
  acc_id :: "jstring option"
  acc_tokens :: "token_config list option"

record cookie =
  ck_name :: jstring
  ck_value :: jstring

text \<open>What \<open>loginAndGetSession\<close> returns when it does not return null.\<close>

record login_session =
  ls_session :: jstring
  ls_apiUser :: jstring
  ls_userInfo :: user_data

record account_result =
  res_username :: jstring
  res_success :: bool
  res_data :: "login_session option"

section \<open>The browser, the gateway and the inventory\<close>

text \<open>
  Everything outside the program is a parameter: a world of some type \<open>'w\<close> and, for each
  operation, a function that answers the call and gives the next world.  The program
  threads the world through its calls in the order it makes them, and the model also
  keeps the list of the calls made so far.

  A script run by \<open>page.evaluate\<close> either makes \<open>page.evaluate\<close> itself throw, or
  returns an object with an \<open>error\<close> (the fetch failed), or returns the HTTP status with
  the parsed body: its \<open>success\<close> flag and its \<open>data\<close> member.
\<close>

datatype 'p evaluated = Evaluate_throws | Fetch_error | Fetch_response int bool 'p

definition response_ok :: "int \<Rightarrow> bool" where
  "response_ok status = (200 \<le> status \<and> status \<le> 299)"

datatype browser_call =
  Launch | NewContext | ApplyStealth | NewPage | Goto | PageClose | ContextClose | BrowserClose

datatype call =
    Browser browser_call
  | PageIsClosed
  | Cookies
  | Login jstring jstring
  | SignIn jsid
  | UserSelf jsid
  | AffTransfer jsid int
  | TokenList jsid
  | TokenDelete jsid "jsid option"
  | TokenCreate jsid request_body
  | TokenUpdate jsid token
  | AddKeys "key_data list"
  | InventoryPost "key_item list"

text \<open>
  \<open>browser_op\<close> answers \<open>True\<close> when the operation completes and \<open>False\<close> when it throws;
  \<open>page_isClosed\<close>, \<open>context_cookies\<close> and \<open>inventory_post\<close> answer \<open>None\<close> when they throw.
  \<open>inventory_post\<close> stands for \<open>handleApiResponse(apiClient.post(...))\<close> of the client
  module and answers the \<open>success\<close> flag of its result.
\<close>

record 'w gateway =
  browser_op :: "browser_call \<Rightarrow> 'w \<Rightarrow> bool \<times> 'w"
  page_isClosed :: "'w \<Rightarrow> bool option \<times> 'w"
  context_cookies :: "'w \<Rightarrow> cookie list option \<times> 'w"
  api_login :: "jstring \<Rightarrow> jstring \<Rightarrow> 'w \<Rightarrow> user_data option evaluated \<times> 'w"
  api_sign_in :: "jsid \<Rightarrow> 'w \<Rightarrow> unit evaluated \<times> 'w"
  api_self :: "jsid \<Rightarrow> 'w \<Rightarrow> user_data option evaluated \<times> 'w"
  api_aff_transfer :: "jsid \<Rightarrow> int \<Rightarrow> 'w \<Rightarrow> unit evaluated \<times> 'w"
  api_token_list :: "jsid \<Rightarrow> 'w \<Rightarrow> token list option evaluated \<times> 'w"
  api_token_delete :: "jsid \<Rightarrow> jsid option \<Rightarrow> 'w \<Rightarrow> unit evaluated \<times> 'w"
  api_token_create :: "jsid \<Rightarrow> request_body \<Rightarrow> 'w \<Rightarrow> unit evaluated \<times> 'w"
  api_token_update :: "jsid \<Rightarrow> token \<Rightarrow> 'w \<Rightarrow> token option evaluated \<times> 'w"
  inventory_post :: "key_item list \<Rightarrow> 'w \<Rightarrow> bool option \<times> 'w"

type_synonym 'w st = "'w \<times> call list"

definition perform :: "call \<Rightarrow> ('w \<Rightarrow> 'r \<times> 'w) \<Rightarrow> 'w st \<Rightarrow> 'r \<times> 'w st" where
  "perform c f s = (case f (fst s) of (r, w) \<Rightarrow> (r, (w, snd s @ [c])))"

text \<open>The calls made between two states, and that all of them satisfy a predicate.\<close>

definition new_calls :: "'w st \<Rightarrow> 'w st \<Rightarrow> call list" where
  "new_calls s s' = drop (length (snd s)) (snd s')"

definition calls_only :: "(call \<Rightarrow> bool) \<Rightarrow> 'w st \<Rightarrow> 'w st \<Rightarrow> bool" where
  "calls_only P s s' =
     (take (length (snd s)) (snd s') = snd s \<and> list_all P (new_calls s s'))"

section \<open>The token methods\<close>

text \<open>
  Each method catches everything: a thrown \<open>page.evaluate\<close>, a failed fetch and a
  response other than status 200 with \<open>success\<close> all end in the method's failure value.
  (A failed fetch whose error message is empty passes the test of \<open>result.error\<close>, then
  throws at \<open>result.data.message\<close>, and ends in the same value through the \<open>catch\<close>.)
\<close>

definition getTokens :: "'w gateway \<Rightarrow> jsid \<Rightarrow> 'w st \<Rightarrow> token list \<times> 'w st" where
  "getTokens G apiUser s =
     (case perform (TokenList apiUser) (api_token_list G apiUser) s of
        (result, s1) \<Rightarrow>
          (case result of
             Evaluate_throws \<Rightarrow> ([], s1)
           | Fetch_error \<Rightarrow> ([], s1)
           | Fetch_response status success payload \<Rightarrow>
               if status = 200 \<and> success
               then (case payload of None \<Rightarrow> ([], s1) | Some tokens \<Rightarrow> (tokens, s1))
               else ([], s1)))"

definition deleteToken :: "'w gateway \<Rightarrow> jsid \<Rightarrow> jsid option \<Rightarrow> 'w st \<Rightarrow> bool \<times> 'w st" where
  "deleteToken G apiUser tokenId s =
     (case perform (TokenDelete apiUser tokenId) (api_token_delete G apiUser tokenId) s of
        (result, s1) \<Rightarrow>
          (case result of
             Evaluate_throws \<Rightarrow> (False, s1)
           | Fetch_error \<Rightarrow> (False, s1)
           | Fetch_response status success payload \<Rightarrow> (status = 200 \<and> success, s1)))"

definition requestBody :: "create_config \<Rightarrow> request_body" where
  "requestBody tokenConfig =
     (let body = \<lparr>rb_name = str_or (cc_name tokenConfig) (ascii ''dw''),
                  rb_expired_time = - 1,
                  rb_model_limits_enabled = False,
                  rb_model_limits = [],
                  rb_allow_ips = [],
                  rb_group = ascii ''default'',
                  rb_unlimited_quota = None,
                  rb_remain_quota = None\<rparr>
      in if truthy_bool (cc_unlimited_quota tokenConfig)
         then body\<lparr>rb_unlimited_quota := Some True\<rparr>
         else body\<lparr>rb_remain_quota := Some (num_or (cc_remain_quota tokenConfig) 500000)\<rparr>)"

text \<open>The test \<open>result.status === 200 && result.data.success\<close> on what the gateway answered.\<close>

fun accepted :: "'p evaluated \<Rightarrow> bool" where
  "accepted (Fetch_response status success payload) = (status = 200 \<and> success)"
| "accepted Fetch_error = False"
| "accepted Evaluate_throws = False"

definition createToken :: "'w gateway \<Rightarrow> jsid \<Rightarrow> create_config \<Rightarrow> 'w st \<Rightarrow> bool \<times> 'w st" where
  "createToken G apiUser tokenConfig s =
     (case perform (TokenCreate apiUser (requestBody tokenConfig))
             (api_token_create G apiUser (requestBody tokenConfig)) s of
        (result, s1) \<Rightarrow>
          (case result of
             Evaluate_throws \<Rightarrow> (False, s1)
           | Fetch_error \<Rightarrow> (False, s1)
           | Fetch_response status success payload \<Rightarrow> (status = 200 \<and> success, s1)))"

definition updateToken :: "'w gateway \<Rightarrow> jsid \<Rightarrow> token \<Rightarrow> 'w st \<Rightarrow> token option \<times> 'w st" where
  "updateToken G apiUser tokenData s =
     (case perform (TokenUpdate apiUser tokenData) (api_token_update G apiUser tokenData) s of
        (result, s1) \<Rightarrow>
          (case result of
             Evaluate_throws \<Rightarrow> (None, s1)
           | Fetch_error \<Rightarrow> (None, s1)
           | Fetch_response status success payload \<Rightarrow>
               if status = 200 \<and> success then (payload, s1) else (None, s1)))"

section \<open>Managing the configured tokens\<close>

text \<open>
  The loop over \<open>accountInfo.tokens\<close>: a configuration with an id that is marked deleted
  is deleted, one without an id is created, and a created one whose name starts with
  the sale marker is remembered for the upload.
\<close>

text \<open>The object literal that the loop hands to \<open>createToken\<close>.\<close>

definition create_config_of :: "token_config \<Rightarrow> create_config" where
  "create_config_of tokenConfig =
     \<lparr>cc_unlimited_quota = Some (truthy_bool (cfg_unlimited_quota tokenConfig)),
      cc_remain_quota = cfg_remain_quota tokenConfig,
      cc_name = cfg_name tokenConfig\<rparr>"

definition manageToken ::
  "'w gateway \<Rightarrow> jsid \<Rightarrow> token_config \<Rightarrow> pending_sell list \<times> 'w st \<Rightarrow> pending_sell list \<times> 'w st" where
  "manageToken G apiUser tokenConfig acc =
     (case acc of (pendingSellTokenNames, s) \<Rightarrow>
        if truthy_id (cfg_id tokenConfig) \<and> truthy_bool (cfg_is_deleted tokenConfig)
        then (case deleteToken G apiUser (cfg_id tokenConfig) s of
                (deleted, s1) \<Rightarrow> (pendingSellTokenNames, s1))
        else if \<not> truthy_id (cfg_id tokenConfig)
        then (case createToken G apiUser (create_config_of tokenConfig) s of
                (createSuccess, s1) \<Rightarrow>
                  (case cfg_name tokenConfig of
                     None \<Rightarrow> (pendingSellTokenNames, s1)
                   | Some name \<Rightarrow>
                       if createSuccess \<and> name \<noteq> [] \<and> startsWith name sell_prefix
                       then (pendingSellTokenNames @
                               [\<lparr>ps_name = name, ps_remain_quota = cfg_remain_quota tokenConfig\<rparr>], s1)
                       else (pendingSellTokenNames, s1)))
        else (pendingSellTokenNames, s))"

fun manageTokens ::
  "'w gateway \<Rightarrow> jsid \<Rightarrow> token_config list \<Rightarrow> pending_sell list \<times> 'w st \<Rightarrow> pending_sell list \<times> 'w st" where
  "manageTokens G apiUser [] acc = acc"
| "manageTokens G apiUser (tokenConfig # rest) acc =
     manageTokens G apiUser rest (manageToken G apiUser tokenConfig acc)"

section \<open>Fetching the tokens: the first token, or the supplements\<close>

text \<open>
  \<open>tokens.find\<close> gives the first element that matches, and the assignment to
  \<open>matchedToken.remain_quota\<close> changes that element of \<open>tokens\<close> in place.
\<close>

fun update_first :: "('a \<Rightarrow> bool) \<Rightarrow> ('a \<Rightarrow> 'a) \<Rightarrow> 'a list \<Rightarrow> 'a list" where
  "update_first P f [] = []"
| "update_first P f (x # xs) = (if P x then f x # xs else x # update_first P f xs)"

text \<open>The filter \<open>t.supplement_quota && t.supplement_quota > 0\<close>.\<close>

definition wants_supplement :: "token_config \<Rightarrow> bool" where
  "wants_supplement t = (truthy_num (cfg_supplement_quota t) \<and>
     (case cfg_supplement_quota t of None \<Rightarrow> False | Some q \<Rightarrow> q > 0))"

text \<open>
  One round of the supplement loop.  The loop runs over configurations that passed the
  filter, so \<open>supplement_quota\<close> is present there; \<open>num_or\<close> reads it.
\<close>

definition supplementToken ::
  "'w gateway \<Rightarrow> jsid \<Rightarrow> token_config \<Rightarrow> token list \<times> 'w st \<Rightarrow> token list \<times> 'w st" where
  "supplementToken G apiUser configToken acc =
     (case acc of (tokens, s) \<Rightarrow>
        (case find (\<lambda>t. tok_id t = cfg_id configToken) tokens of
           None \<Rightarrow> (tokens, s)
         | Some matchedToken \<Rightarrow>
             (let newRemainQuota = num_or (tok_remain_quota matchedToken) 0
                                   + num_or (cfg_supplement_quota configToken) 0;
                  updatedTokenData = matchedToken\<lparr>tok_remain_quota := Some newRemainQuota\<rparr>
              in case updateToken G apiUser updatedTokenData s of
                   (updateResult, s1) \<Rightarrow>
                     (case updateResult of
                        None \<Rightarrow> (tokens, s1)
                      | Some confirmed \<Rightarrow>
                          (update_first (\<lambda>t. tok_id t = cfg_id configToken)
                             (\<lambda>t. t\<lparr>tok_remain_quota := tok_remain_quota confirmed\<rparr>) tokens, s1)))))"

fun supplementTokens ::
  "'w gateway \<Rightarrow> jsid \<Rightarrow> token_config list \<Rightarrow> token list \<times> 'w st \<Rightarrow> token list \<times> 'w st" where
  "supplementTokens G apiUser [] acc = acc"
| "supplementTokens G apiUser (configToken # rest) acc =
     supplementTokens G apiUser rest (supplementToken G apiUser configToken acc)"

definition fallback_config :: create_config where
  "fallback_config = \<lparr>cc_unlimited_quota = Some True, cc_remain_quota = None, cc_name = None\<rparr>"

definition fetchTokens ::
  "'w gateway \<Rightarrow> jsid \<Rightarrow> account_info option \<Rightarrow> 'w st \<Rightarrow> token list \<times> 'w st" where
  "fetchTokens G apiUser accountInfo s =
     (case getTokens G apiUser s of
        (tokens, s1) \<Rightarrow>
          if tokens = []
          then (case createToken G apiUser fallback_config s1 of
                  (created, s2) \<Rightarrow> if created then getTokens G apiUser s2 else (tokens, s2))
          else (case accountInfo of
                  None \<Rightarrow> (tokens, s1)
                | Some info \<Rightarrow>
                    (case ai_tokens info of
                       None \<Rightarrow> (tokens, s1)
                     | Some configs \<Rightarrow>
                         supplementTokens G apiUser (filter wants_supplement configs) (tokens, s1))))"

section \<open>Uploading the tokens for sale\<close>

datatype add_error =
    Keys_empty | Too_many_keys
  | Key_empty nat | Key_type_empty nat | Key_length nat | Key_type_invalid nat
  | Quota_invalid nat | Source_name_too_long nat

datatype add_result = Add_invalid add_error | Add_response bool

definition validateKey :: "nat \<Rightarrow> key_data \<Rightarrow> add_error option" where
  "validateKey i keyData =
     (if \<not> truthy_str (kd_key keyData) then Some (Key_empty (i + 1))
      else if \<not> truthy_str (kd_key_type keyData) then Some (Key_type_empty (i + 1))
      else if length (str_or (kd_key keyData) []) < 1 \<or> length (str_or (kd_key keyData) []) > 500
      then Some (Key_length (i + 1))
      else if str_or (kd_key_type keyData) [] \<notin>
                set [ascii ''coderouter'', ascii ''anyrouter'', ascii ''other'']
      then Some (Key_type_invalid (i + 1))
      else if (case kd_quota keyData of None \<Rightarrow> False | Some q \<Rightarrow> q < 0)
      then Some (Quota_invalid (i + 1))
      else if (case kd_source_name keyData of None \<Rightarrow> False | Some n \<Rightarrow> length n > 200)
      then Some (Source_name_too_long (i + 1))
      else None)"

fun validateKeys :: "nat \<Rightarrow> key_data list \<Rightarrow> add_error option" where
  "validateKeys i [] = None"
| "validateKeys i (keyData # rest) =
     (case validateKey i keyData of
        Some e \<Rightarrow> Some e
      | None \<Rightarrow> validateKeys (Suc i) rest)"

definition requestKey :: "key_data \<Rightarrow> key_item" where
  "requestKey keyData =
     \<lparr>ki_key = str_or (kd_key keyData) [],
      ki_key_type = str_or (kd_key_type keyData) [],
      ki_quota = (case kd_quota keyData of None \<Rightarrow> 0 | Some q \<Rightarrow> q),
      ki_is_sold = (case kd_is_sold keyData of None \<Rightarrow> False | Some b \<Rightarrow> b),
      ki_source_name = kd_source_name keyData,
      ki_account_id = kd_account_id keyData\<rparr>"

text \<open>
  \<open>addKeys\<close>: every call is noted; the request is posted only when the list is not
  empty, has at most 100 keys and every key passes the checks.  The result is \<open>None\<close>
  when the post throws.
\<close>

definition addKeys :: "'w gateway \<Rightarrow> key_data list \<Rightarrow> 'w st \<Rightarrow> add_result option \<times> 'w st" where
  "addKeys G keys s0 =
     (let s = (fst s0, snd s0 @ [AddKeys keys])
      in if keys = [] then (Some (Add_invalid Keys_empty), s)
         else if length keys > 100 then (Some (Add_invalid Too_many_keys), s)
         else (case validateKeys 0 keys of
                 Some e \<Rightarrow> (Some (Add_invalid e), s)
               | None \<Rightarrow>
                   (case perform (InventoryPost (map requestKey keys))
                           (inventory_post G (map requestKey keys)) s of
                      (posted, s1) \<Rightarrow>
                        (case posted of
                           None \<Rightarrow> (None, s1)
                         | Some success \<Rightarrow> (Some (Add_response success), s1)))))"

text \<open>The record built for one pending sale token, if its token is found with a key.\<close>

definition keyToUpload :: "account_info \<Rightarrow> token list \<Rightarrow> pending_sell \<Rightarrow> key_data list" where
  "keyToUpload info tokens pending =
     (case find (\<lambda>t. tok_name t = Some (ps_name pending)) tokens of
        None \<Rightarrow> []
      | Some matchedToken \<Rightarrow>
          if truthy_str (tok_key matchedToken)
          then [\<lparr>kd_key = tok_key matchedToken,
                 kd_key_type = Some (ascii ''anyrouter''),
                 kd_is_sold = Some False,
                 kd_quota = Some (if truthy_num (ps_remain_quota pending)
                                  then of_int (num_or (ps_remain_quota pending) 0) / 500000
                                  else 0),
                 kd_source_name =
                   Some (str_or (ai_username info) [] @ ascii ''&'' @ ps_name pending),
                 kd_account_id = ai_id info\<rparr>]
          else [])"

definition keysToUpload :: "account_info \<Rightarrow> token list \<Rightarrow> pending_sell list \<Rightarrow> key_data list" where
  "keysToUpload info tokens pendingSellTokenNames =
     concat (map (keyToUpload info tokens) pendingSellTokenNames)"

definition has_keyed_match :: "token list \<Rightarrow> pending_sell \<Rightarrow> bool" where
  "has_keyed_match tokens pending =
     (case find (\<lambda>t. tok_name t = Some (ps_name pending)) tokens of
        None \<Rightarrow> False
      | Some matchedToken \<Rightarrow> truthy_str (tok_key matchedToken))"

text \<open>
  The upload block; the result is \<open>False\<close> when an exception leaves it: \<open>addKeys\<close>
  threw, or \<open>accountInfo\<close> was null where its \<open>username\<close> is read.
\<close>

definition uploadSellTokens ::
  "'w gateway \<Rightarrow> account_info option \<Rightarrow> pending_sell list \<Rightarrow> token list \<Rightarrow> 'w st \<Rightarrow> bool \<times> 'w st" where
  "uploadSellTokens G accountInfo pendingSellTokenNames tokens s =
     (if pendingSellTokenNames = [] then (True, s)
      else (case accountInfo of
              None \<Rightarrow> (\<not> list_ex (has_keyed_match tokens) pendingSellTokenNames, s)
            | Some info \<Rightarrow>
                if keysToUpload info tokens pendingSellTokenNames = [] then (True, s)
                else (case addKeys G (keysToUpload info tokens pendingSellTokenNames) s of
                        (uploadResult, s1) \<Rightarrow> (uploadResult \<noteq> None, s1))))"

section \<open>The run for one account\<close>

definition tokenView :: "token \<Rightarrow> token_view" where
  "tokenView t =
     \<lparr>tv_id = tok_id t, tv_key = tok_key t, tv_name = tok_name t,
      tv_unlimited_quota = tok_unlimited_quota t, tv_used_quota = tok_used_quota t,
      tv_remain_quota = tok_remain_quota t, tv_supplement_quota = 0\<rparr>"

text \<open>
  A block of the run ends in one of three ways: an exception (caught by the outer
  \<open>catch\<close>, which returns null), \<open>return null\<close>, or a value to go on with.
\<close>

datatype 'a step = Throw | Return_null | Continue 'a

text \<open>Which of \<open>browser\<close>, \<open>context\<close> and \<open>page\<close> are set.\<close>

record handles =
  h_browser :: bool
  h_context :: bool
  h_page :: bool

definition startBrowser :: "'w gateway \<Rightarrow> 'w st \<Rightarrow> (bool \<times> handles) \<times> 'w st" where
  "startBrowser G s =
     (case perform (Browser Launch) (browser_op G Launch) s of
        (launched, s1) \<Rightarrow>
          if \<not> launched
          then ((False, \<lparr>h_browser = False, h_context = False, h_page = False\<rparr>), s1)
          else (case perform (Browser NewContext) (browser_op G NewContext) s1 of
            (hasContext, s2) \<Rightarrow>
              if \<not> hasContext
              then ((False, \<lparr>h_browser = True, h_context = False, h_page = False\<rparr>), s2)
              else (case perform (Browser ApplyStealth) (browser_op G ApplyStealth) s2 of
                (applied, s3) \<Rightarrow>
                  if \<not> applied
                  then ((False, \<lparr>h_browser = True, h_context = True, h_page = False\<rparr>), s3)
                  else (case perform (Browser NewPage) (browser_op G NewPage) s3 of
                    (hasPage, s4) \<Rightarrow>
                      if \<not> hasPage
                      then ((False, \<lparr>h_browser = True, h_context = True, h_page = False\<rparr>), s4)
                      else (case perform (Browser Goto) (browser_op G Goto) s4 of
                        (loaded, s5) \<Rightarrow>
                          ((loaded, \<lparr>h_browser = True, h_context = True, h_page = True\<rparr>), s5))))))"

text \<open>The login call and the session cookie.\<close>

definition establishSession ::
  "'w gateway \<Rightarrow> jstring \<Rightarrow> jstring \<Rightarrow> 'w st \<Rightarrow> (jsid \<times> cookie \<times> user_data) step \<times> 'w st" where
  "establishSession G username password s =
     (case perform (Login username password) (api_login G username password) s of
        (loginResult, s1) \<Rightarrow>
          (case loginResult of
             Evaluate_throws \<Rightarrow> (Throw, s1)
           | Fetch_error \<Rightarrow> (Return_null, s1)
           | Fetch_response status success payload \<Rightarrow>
               if \<not> response_ok status then (Return_null, s1)
               else if \<not> success then (Return_null, s1)
               else (case payload of
                  None \<Rightarrow> (Return_null, s1)
                | Some loginUser \<Rightarrow>
                    (case ud_id loginUser of
                       None \<Rightarrow> (Return_null, s1)
                     | Some apiUser \<Rightarrow>
                         if \<not> truthy_id (Some apiUser) then (Return_null, s1)
                         else (case perform Cookies (context_cookies G) s1 of
                           (cookies, s2) \<Rightarrow>
                             (case cookies of
                                None \<Rightarrow> (Throw, s2)
                              | Some cs \<Rightarrow>
                                  (case find (\<lambda>c. ck_name c = ascii ''session'') cs of
                                     None \<Rightarrow> (Return_null, s2)
                                   | Some sessionCookie \<Rightarrow>
                                       (Continue (apiUser, sessionCookie, loginUser), s2))))))))"

text \<open>
  The transfer of the invitation reward: whatever the call answers, the reward is added
  to the balance and set to 0.  Only a thrown \<open>page.evaluate\<close> (\<open>None\<close>) leaves the block.
\<close>

definition transferAffQuota ::
  "'w gateway \<Rightarrow> jsid \<Rightarrow> user_data \<Rightarrow> 'w st \<Rightarrow> user_data option \<times> 'w st" where
  "transferAffQuota G apiUser userData s =
     (case ud_aff_quota userData of
        None \<Rightarrow> (Some userData, s)
      | Some affQuota \<Rightarrow>
          if affQuota \<noteq> 0 \<and> affQuota > 0
          then (case perform (AffTransfer apiUser affQuota) (api_aff_transfer G apiUser affQuota) s of
                  (transferResult, s1) \<Rightarrow>
                    (case transferResult of
                       Evaluate_throws \<Rightarrow> (None, s1)
                     | Fetch_error \<Rightarrow>
                         (Some (userData\<lparr>ud_quota := ud_quota userData + affQuota,
                                          ud_aff_quota := Some 0\<rparr>), s1)
                     | Fetch_response status success payload \<Rightarrow>
                         (Some (userData\<lparr>ud_quota := ud_quota userData + affQuota,
                                          ud_aff_quota := Some 0\<rparr>), s1)))
          else (Some userData, s))"

text \<open>What the run does with the user data of \<open>/api/user/self\<close>.\<close>

definition processUserInfo ::
  "'w gateway \<Rightarrow> jsid \<Rightarrow> account_info option \<Rightarrow> user_data \<Rightarrow> 'w st \<Rightarrow> user_data option \<times> 'w st" where
  "processUserInfo G apiUser accountInfo fetched s =
     (case transferAffQuota G apiUser fetched s of
        (transferred, s1) \<Rightarrow>
          (case transferred of
             None \<Rightarrow> (None, s1)
           | Some userData \<Rightarrow>
               (case (case accountInfo of
                        None \<Rightarrow> ([], s1)
                      | Some info \<Rightarrow>
                          (case ai_tokens info of
                             None \<Rightarrow> ([], s1)
                           | Some configs \<Rightarrow> manageTokens G apiUser configs ([], s1))) of
                  (pendingSellTokenNames, s2) \<Rightarrow>
                    (case fetchTokens G apiUser accountInfo s2 of
                       (tokens, s3) \<Rightarrow>
                         (case uploadSellTokens G accountInfo pendingSellTokenNames tokens s3 of
                            (uploaded, s4) \<Rightarrow>
                              if \<not> uploaded then (None, s4)
                              else if tokens \<noteq> []
                              then (Some (userData\<lparr>ud_tokens := Some (map tokenView tokens)\<rparr>), s4)
                              else (Some userData, s4))))))"

text \<open>The body of the \<open>try\<close> once the page is open.\<close>

definition loginSteps ::
  "'w gateway \<Rightarrow> jstring \<Rightarrow> jstring \<Rightarrow> account_info option \<Rightarrow> 'w st \<Rightarrow> login_session step \<times> 'w st" where
  "loginSteps G username password accountInfo s =
     (case establishSession G username password s of
        (established, s1) \<Rightarrow>
          (case established of
             Throw \<Rightarrow> (Throw, s1)
           | Return_null \<Rightarrow> (Return_null, s1)
           | Continue (apiUser, sessionCookie, loginUser) \<Rightarrow>
               (case perform (SignIn apiUser) (api_sign_in G apiUser) s1 of
                  (signInResult, s2) \<Rightarrow>
                    (case signInResult of
                       Evaluate_throws \<Rightarrow> (Throw, s2)
                     | _ \<Rightarrow>
                       (case perform (UserSelf apiUser) (api_self G apiUser) s2 of
                          (userInfoResult, s3) \<Rightarrow>
                            (let fallback = \<lparr>ls_session = ck_value sessionCookie,
                                             ls_apiUser = jsString apiUser,
                                             ls_userInfo = loginUser\<rparr>
                             in case userInfoResult of
                                  Evaluate_throws \<Rightarrow> (Throw, s3)
                                | Fetch_error \<Rightarrow> (Continue fallback, s3)
                                | Fetch_response status success payload \<Rightarrow>
                                    if response_ok status \<and> success
                                    then (case payload of
                                            None \<Rightarrow> (Throw, s3)
                                          | Some fetched \<Rightarrow>
                                              (case processUserInfo G apiUser accountInfo fetched s3 of
                                                 (processed, s4) \<Rightarrow>
                                                   (case processed of
                                                      None \<Rightarrow> (Throw, s4)
                                                    | Some userData \<Rightarrow>
                                                        (Continue (fallback\<lparr>ls_userInfo := userData\<rparr>), s4))))
                                    else (Continue fallback, s3)))))))"

text \<open>
  The \<open>finally\<close> block: the three closes, in one \<open>try\<close>, so that the first one that
  throws ends the block.
\<close>

definition closeAll :: "'w gateway \<Rightarrow> handles \<Rightarrow> 'w st \<Rightarrow> 'w st" where
  "closeAll G h s =
     (case (if h_page h
            then (case perform PageIsClosed (page_isClosed G) s of
                    (isClosed, s1) \<Rightarrow>
                      (case isClosed of
                         None \<Rightarrow> (False, s1)
                       | Some True \<Rightarrow> (True, s1)
                       | Some False \<Rightarrow> perform (Browser PageClose) (browser_op G PageClose) s1))
            else (True, s)) of
        (pageDone, s2) \<Rightarrow>
          if \<not> pageDone then s2
          else (case (if h_context h
                      then perform (Browser ContextClose) (browser_op G ContextClose) s2
                      else (True, s2)) of
                  (contextDone, s3) \<Rightarrow>
                    if \<not> contextDone then s3
                    else if h_browser h
                    then snd (perform (Browser BrowserClose) (browser_op G BrowserClose) s3)
                    else s3))"

text \<open>
  The \<open>try\<close> block: how it ends, which of the three handles are set, and the state
  it leaves.  An exception while the browser is started ends it like any other.
\<close>

definition tryBlock ::
  "'w gateway \<Rightarrow> jstring \<Rightarrow> jstring \<Rightarrow> account_info option \<Rightarrow> 'w st
     \<Rightarrow> (login_session step \<times> handles) \<times> 'w st" where
  "tryBlock G username password accountInfo s =
     (case startBrowser G s of
        ((started, h), s1) \<Rightarrow>
          if started
          then (case loginSteps G username password accountInfo s1 of
                  (outcome, s2) \<Rightarrow> ((outcome, h), s2))
          else ((Throw, h), s1))"

text \<open>
  \<open>loginAndGetSession\<close>: the \<open>try\<close> block, then the \<open>finally\<close> block; the result is
  null unless the \<open>try\<close> block reached its \<open>return\<close> of the session.
\<close>

definition loginAndGetSession ::
  "'w gateway \<Rightarrow> jstring \<Rightarrow> jstring \<Rightarrow> account_info option \<Rightarrow> 'w st \<Rightarrow> login_session option \<times> 'w st" where
  "loginAndGetSession G username password accountInfo s =
     (case tryBlock G username password accountInfo s of
        ((outcome, h), s2) \<Rightarrow>
          (case outcome of
             Continue result \<Rightarrow> (Some result, closeAll G h s2)
           | Throw \<Rightarrow> (None, closeAll G h s2)
           | Return_null \<Rightarrow> (None, closeAll G h s2)))"

section \<open>The batch of accounts\<close>

text \<open>
  \<open>processAccounts\<close> calls \<open>loginAndGetSession\<close> with the user name and the password
  only, so \<open>accountInfo\<close> has its default, null.  The pause between two accounts is a
  matter of time alone and is left out.
\<close>

fun processAccounts :: "'w gateway \<Rightarrow> account list \<Rightarrow> 'w st \<Rightarrow> account_result list \<times> 'w st" where
  "processAccounts G [] s = ([], s)"
| "processAccounts G (account # rest) s =
     (case loginAndGetSession G (acc_username account) (acc_password account) None s of
        (result, s1) \<Rightarrow>
          (case processAccounts G rest s1 of
             (results, s2) \<Rightarrow>
               (\<lparr>res_username = acc_username account,
                 res_success = (result \<noteq> None),
                 res_data = result\<rparr> # results, s2)))"

section \<open>Predicates on calls\<close>

fun is_create :: "call \<Rightarrow> bool" where
  "is_create (TokenCreate a b) = True"
| "is_create c = False"

fun is_update :: "call \<Rightarrow> bool" where
  "is_update (TokenUpdate a t) = True"
| "is_update c = False"

fun is_delete :: "call \<Rightarrow> bool" where
  "is_delete (TokenDelete a i) = True"
| "is_delete c = False"

fun is_addKeys :: "call \<Rightarrow> bool" where
  "is_addKeys (AddKeys ks) = True"
| "is_addKeys c = False"

fun is_close :: "call \<Rightarrow> bool" where
  "is_close (Browser PageClose) = True"
| "is_close (Browser ContextClose) = True"
| "is_close (Browser BrowserClose) = True"
| "is_close c = False"

text \<open>The calls that one configured token leads to in the management loop.\<close>

definition config_calls :: "jsid \<Rightarrow> token_config \<Rightarrow> call list" where
  "config_calls apiUser tokenConfig =
     (if truthy_id (cfg_id tokenConfig) \<and> truthy_bool (cfg_is_deleted tokenConfig)
      then [TokenDelete apiUser (cfg_id tokenConfig)]
      else if \<not> truthy_id (cfg_id tokenConfig)
      then [TokenCreate apiUser (requestBody (create_config_of tokenConfig))]
      else [])"

text \<open>The number of keys a call hands over to \<open>addKeys\<close> or posts to the inventory.\<close>

fun keys_carried :: "call \<Rightarrow> nat" where
  "keys_carried (AddKeys ks) = length ks"
| "keys_carried (InventoryPost items) = length items"
| "keys_carried c = 0"

text \<open>The calls a run without \<open>accountInfo\<close> can make to the token and inventory endpoints.\<close>

fun plain_call :: "call \<Rightarrow> bool" where
  "plain_call (TokenDelete a i) = False"
| "plain_call (TokenUpdate a t) = False"
| "plain_call (AddKeys ks) = False"
| "plain_call (InventoryPost items) = False"
| "plain_call (TokenCreate a b) = (b = requestBody fallback_config)"
| "plain_call c = True"

text \<open>
  The calls that the body of the \<open>try\<close> can make, given \<open>accountInfo\<close>: no close, and
  without \<open>accountInfo\<close> no delete, update or upload and no create call other than the
  fallback.
\<close>

fun body_call :: "account_info option \<Rightarrow> call \<Rightarrow> bool" where
  "body_call info (Browser b) = (b \<noteq> PageClose \<and> b \<noteq> ContextClose \<and> b \<noteq> BrowserClose)"
| "body_call info PageIsClosed = False"
| "body_call info (TokenDelete a i) = (info \<noteq> None)"
| "body_call info (TokenUpdate a t) = (info \<noteq> None)"
| "body_call info (TokenCreate a b) = (info \<noteq> None \<or> b = requestBody fallback_config)"
| "body_call info (AddKeys ks) = (info \<noteq> None)"
| "body_call info (InventoryPost items) = (info \<noteq> None \<and> length items \<le> 100)"
| "body_call info c = True"

section \<open>A scripted gateway\<close>

text \<open>
  A gateway for concrete runs: its world is a script that fixes the answer of every
  operation.  The token list endpoint answers from a queue, one entry per call, and
  with an empty list once the queue is used up; a login with a user name in
  \<open>sc_refused\<close> is refused.
\<close>

record script =
  sc_login :: "user_data option evaluated"
  sc_refused :: "jstring list"
  sc_cookies :: "cookie list option"
  sc_self :: "user_data option evaluated"
  sc_transfer :: "unit evaluated"
  sc_token_lists :: "token list option evaluated list"
  sc_create :: "unit evaluated"
  sc_delete :: "unit evaluated"
  sc_update :: "token option evaluated"
  sc_post :: "bool option"
  sc_page_close :: bool

definition scripted :: "script gateway" where
  "scripted =
     \<lparr>browser_op = (\<lambda>op w. (if op = PageClose then sc_page_close w else True, w)),
      page_isClosed = (\<lambda>w. (Some False, w)),
      context_cookies = (\<lambda>w. (sc_cookies w, w)),
      api_login = (\<lambda>username password w.
         (if username \<in> set (sc_refused w) then Fetch_response 401 False None else sc_login w, w)),
      api_sign_in = (\<lambda>apiUser w. (Fetch_response 200 True (), w)),
      api_self = (\<lambda>apiUser w. (sc_self w, w)),
      api_aff_transfer = (\<lambda>apiUser affQuota w. (sc_transfer w, w)),
      api_token_list = (\<lambda>apiUser w.
         (case sc_token_lists w of
            [] \<Rightarrow> (Fetch_response 200 True (Some []), w)
          | r # rs \<Rightarrow> (r, w\<lparr>sc_token_lists := rs\<rparr>))),
      api_token_delete = (\<lambda>apiUser tokenId w. (sc_delete w, w)),
      api_token_create = (\<lambda>apiUser body w. (sc_create w, w)),
      api_token_update = (\<lambda>apiUser tokenData w. (sc_update w, w)),
      inventory_post = (\<lambda>items w. (sc_post w, w))\<rparr>"

definition user1 :: user_data where
  "user1 = \<lparr>ud_id = Some (IdNum 7), ud_username = Some (ascii ''alice''),
            ud_email = None, ud_quota = 1000, ud_used_quota = 0,
            ud_aff_code = None, ud_aff_quota = Some 200, ud_tokens = None\<rparr>"

definition token1 :: token where
  "token1 = \<lparr>tok_id = Some (IdNum 1), tok_key = Some (ascii ''abc''),
             tok_name = Some (sell_prefix @ ascii ''x''), tok_unlimited_quota = Some False,
             tok_used_quota = Some 0, tok_remain_quota = Some 100, tok_other = []\<rparr>"

text \<open>A script in which every call succeeds and the account has the one token \<open>token1\<close>.\<close>

definition script1 :: script where
  "script1 =
     \<lparr>sc_login = Fetch_response 200 True (Some user1),
      sc_refused = [],
      sc_cookies = Some [\<lparr>ck_name = ascii ''session'', ck_value = ascii ''s1''\<rparr>],
      sc_self = Fetch_response 200 True (Some user1),
      sc_transfer = Fetch_response 200 True (),
      sc_token_lists = [Fetch_response 200 True (Some [token1])],
      sc_create = Fetch_response 200 True (),
      sc_delete = Fetch_response 200 True (),
      sc_update = Fetch_response 200 True (Some (token1\<lparr>tok_remain_quota := Some 149\<rparr>)),
      sc_post = Some True,
      sc_page_close = True\<rparr>"

definition config_blank :: token_config where
  "config_blank = \<lparr>cfg_id = None, cfg_name = None, cfg_is_deleted = None,
                   cfg_unlimited_quota = None, cfg_remain_quota = None,
                   cfg_supplement_quota = None\<rparr>"

definition info1 :: account_info where
  "info1 = \<lparr>ai_id = Some (ascii ''acc1''), ai_username = Some (ascii ''alice''),
            ai_tokens = Some []\<rparr>"


definition script_late :: script where
  "script_late =
     script1\<lparr>sc_token_lists := [Fetch_error, Fetch_response 200 True (Some [token1])]\<rparr>"

definition config_supplement :: token_config where
  "config_supplement =
     config_blank\<lparr>cfg_id := Some (IdNum 1), cfg_supplement_quota := Some 50\<rparr>"

text \<open>
  A configured token to create for sale, the pending entry and the key it leads to, a
  copy of \<open>token1\<close> without a key, and a script whose token list holds that copy before
  \<open>token1\<close>.
\<close>

definition config_sale :: token_config where
  "config_sale =
     config_blank\<lparr>cfg_name := Some (sell_prefix @ ascii ''x''), cfg_remain_quota := Some 500000\<rparr>"

definition pending1 :: pending_sell where
  "pending1 = \<lparr>ps_name = sell_prefix @ ascii ''x'', ps_remain_quota = Some 500000\<rparr>"

definition key1 :: key_data where
  "key1 = \<lparr>kd_key = Some (ascii ''abc''), kd_key_type = Some (ascii ''anyrouter''),
           kd_is_sold = Some False, kd_quota = Some 1,
           kd_source_name = Some (ascii ''alice&'' @ sell_prefix @ ascii ''x''),
           kd_account_id = Some (ascii ''acc1'')\<rparr>"

definition token_nokey :: token where
  "token_nokey = token1\<lparr>tok_id := Some (IdNum 2), tok_key := None\<rparr>"

definition script_dup :: script where
  "script_dup =
     script1\<lparr>sc_token_lists := [Fetch_response 200 True (Some [token_nokey, token1])]\<rparr>"

text \<open>
  A gateway on the same scripts whose browser operations never throw; a configured
  token to delete; and three accounts, the second of which carries that token.
\<close>

definition steady :: "script gateway" where
  "steady = scripted\<lparr>browser_op := (\<lambda>op w. (True, w))\<rparr>"

definition config_delete :: token_config where
  "config_delete = config_blank\<lparr>cfg_id := Some (IdNum 1), cfg_is_deleted := Some True\<rparr>"

definition account1 :: account where
  "account1 = \<lparr>acc_username = ascii ''alice'', acc_password = ascii ''pw'',
               acc_id = Some (ascii ''acc1''), acc_tokens = None\<rparr>"

definition account2 :: account where
  "account2 = \<lparr>acc_username = ascii ''bob'', acc_password = ascii ''pw'',
               acc_id = Some (ascii ''acc2''), acc_tokens = Some [config_delete]\<rparr>"

definition account3 :: account where
  "account3 = \<lparr>acc_username = ascii ''carol'', acc_password = ascii ''pw'',
               acc_id = Some (ascii ''acc3''), acc_tokens = None\<rparr>"

text \<open>
  A gateway on the same scripts in which one browser operation throws and every other
  completes, and a script whose create call is refused.
\<close>

definition failing :: "browser_call \<Rightarrow> script gateway" where
  "failing b = scripted\<lparr>browser_op := (\<lambda>op w. (op \<noteq> b, w))\<rparr>"

definition script_refuse :: script where
  "script_refuse = script1\<lparr>sc_create := Fetch_response 500 False ()\<rparr>"

section \<open>The calls a block makes\<close>

lemma perform_trace [simp]: "snd (snd (perform c f s)) = snd s @ [c]"
  by (simp add: perform_def split: prod.splits)

lemma new_calls_self [simp]: "new_calls s s = []"
  by (simp add: new_calls_def)

lemma new_calls_append: "snd s' = snd s @ cs \<Longrightarrow> new_calls s s' = cs"
  by (simp add: new_calls_def)

lemma calls_only_iff: "calls_only P s s' \<longleftrightarrow> (\<exists>cs. snd s' = snd s @ cs \<and> list_all P cs)"
proof
  assume h: "calls_only P s s'"
  then have "snd s' = snd s @ new_calls s s'"
    unfolding calls_only_def new_calls_def
    by (metis append_take_drop_id)
  with h show "\<exists>cs. snd s' = snd s @ cs \<and> list_all P cs"
    unfolding calls_only_def by blast
next
  assume "\<exists>cs. snd s' = snd s @ cs \<and> list_all P cs"
  then show "calls_only P s s'"
    by (auto simp: calls_only_def new_calls_def)
qed

lemma calls_only_refl [simp]: "calls_only P s s"
  by (simp add: calls_only_iff)

lemma calls_only_trans: "calls_only P s s1 \<Longrightarrow> calls_only P s1 s2 \<Longrightarrow> calls_only P s s2"
  by (auto simp: calls_only_iff)

lemma calls_only_perform: "P c \<Longrightarrow> calls_only P s (snd (perform c f s))"
  by (simp add: calls_only_iff)

lemma perform_alt:
  "perform c f s = (fst (f (fst s)), (snd (f (fst s)), snd s @ [c]))"
  by (simp add: perform_def split: prod.splits)

lemma getTokens_trace [simp]: "snd (snd (getTokens G a s)) = snd s @ [TokenList a]"
  by (simp add: getTokens_def perform_alt split: evaluated.splits option.splits)

lemma deleteToken_trace [simp]: "snd (snd (deleteToken G a i s)) = snd s @ [TokenDelete a i]"
  by (simp add: deleteToken_def perform_alt split: evaluated.splits)

lemma createToken_trace [simp]:
  "snd (snd (createToken G a c s)) = snd s @ [TokenCreate a (requestBody c)]"
  by (simp add: createToken_def perform_alt split: evaluated.splits)

lemma updateToken_trace [simp]: "snd (snd (updateToken G a t s)) = snd s @ [TokenUpdate a t]"
  by (simp add: updateToken_def perform_alt split: evaluated.splits)

lemma startsWith_nonempty: "startsWith n sell_prefix \<Longrightarrow> n \<noteq> []"
  by (auto simp: sell_prefix_def)

lemma manageToken_trace:
  "snd (snd (manageToken G a c (p, s))) = snd s @ config_calls a c"
proof -
  have d: "snd (snd (deleteToken G a (cfg_id c) s)) = snd s @ [TokenDelete a (cfg_id c)]"
    by simp
  have k: "snd (snd (createToken G a (create_config_of c) s))
             = snd s @ [TokenCreate a (requestBody (create_config_of c))]"
    by simp
  show ?thesis
    using d k
    by (auto simp: manageToken_def config_calls_def create_config_of_def split_beta
             split: option.splits)
qed

lemma manageTokens_trace:
  "snd (snd (manageTokens G a cs (p, s))) = snd s @ concat (map (config_calls a) cs)"
proof (induction cs arbitrary: p s)
  case Nil
  show ?case by simp
next
  case (Cons c cs)
  obtain p1 s1 where step: "manageToken G a c (p, s) = (p1, s1)"
    by (cases "manageToken G a c (p, s)")
  have "snd s1 = snd s @ config_calls a c"
    using manageToken_trace [of G a c p s] step by simp
  with Cons.IH [of p1 s1] step show ?case by simp
qed

lemma manageToken_pending:
  assumes "\<not> truthy_id (cfg_id c)"
  shows "fst (manageToken G a c (p, s)) =
           p @ (case cfg_name c of
                  None \<Rightarrow> []
                | Some n \<Rightarrow>
                    if fst (createToken G a (create_config_of c) s) \<and> startsWith n sell_prefix
                    then [\<lparr>ps_name = n, ps_remain_quota = cfg_remain_quota c\<rparr>] else [])"
  using assms
  by (auto simp: manageToken_def create_config_of_def split_beta dest: startsWith_nonempty
           split: option.splits)

lemma count_creates:
  "length (filter is_create (concat (map (config_calls a) cs)))
     = length (filter (\<lambda>c. \<not> truthy_id (cfg_id c)) cs)"
  by (induction cs) (auto simp: config_calls_def)

section \<open>Creations and the tokens for sale\<close>

lemma createToken_gateway:
  "createToken G a cc s =
     (accepted (fst (api_token_create G a (requestBody cc) (fst s))),
      (snd (api_token_create G a (requestBody cc) (fst s)),
       snd s @ [TokenCreate a (requestBody cc)]))"
  by (simp add: createToken_def perform_alt split: evaluated.splits)

lemma manageTokens_append:
  "manageTokens G a (xs @ ys) acc = manageTokens G a ys (manageTokens G a xs acc)"
  by (induction xs arbitrary: acc) simp_all

lemma manageToken_from_empty:
  "manageToken G a c (p, s) =
     (p @ fst (manageToken G a c ([], s)), snd (manageToken G a c ([], s)))"
  by (simp add: manageToken_def split_beta split: option.splits)

lemma manageTokens_from_empty:
  "manageTokens G a cs (p, s) =
     (p @ fst (manageTokens G a cs ([], s)), snd (manageTokens G a cs ([], s)))"
proof (induction cs arbitrary: p s)
  case Nil
  show ?case by simp
next
  case (Cons c cs)
  obtain p1 s1 where one: "manageToken G a c ([], s) = (p1, s1)"
    by (cases "manageToken G a c ([], s)")
  have step: "manageToken G a c (p, s) = (p @ p1, s1)"
    using manageToken_from_empty [of G a c p s] one by simp
  show ?case
    using Cons.IH [of "p @ p1" s1] Cons.IH [of p1 s1]
    by (simp add: step one)
qed

lemma manageToken_create:
  assumes "\<not> truthy_id (cfg_id c)"
  shows "manageToken G a c (p, s) =
           (p @ (case cfg_name c of
                   None \<Rightarrow> []
                 | Some n \<Rightarrow>
                     if accepted (fst (api_token_create G a (requestBody (create_config_of c)) (fst s)))
                        \<and> startsWith n sell_prefix
                     then [\<lparr>ps_name = n, ps_remain_quota = cfg_remain_quota c\<rparr>] else []),
            (snd (api_token_create G a (requestBody (create_config_of c)) (fst s)),
             snd s @ [TokenCreate a (requestBody (create_config_of c))]))"
  using assms
  by (auto simp: manageToken_def createToken_gateway dest: startsWith_nonempty
           split: option.splits)

text \<open>
  Claim C4.  Take any list of configured tokens and any one of them, \<open>c\<close>, that has no
  id, with the tokens before and after it.  When the loop comes to \<open>c\<close> it makes
  exactly one call, the create call for \<open>c\<close>, and appends the entry
  \<open>{name, remain_quota}\<close> of \<open>c\<close> to the pending sale tokens exactly when the gateway
  answered that call with status 200 and \<open>success\<close> and the name starts with the sale
  marker.  The pending sale tokens of the whole list are those of the tokens before \<open>c\<close>,
  then that entry (or none), then those of the tokens after \<open>c\<close>.  The calls of the whole
  loop are the calls of its tokens in order, one create call for each token without an
  id, so the number of create calls is the number of such tokens.
\<close>

theorem manageTokens_creates:
  assumes "\<not> truthy_id (cfg_id c)"
  shows "(let body = requestBody (create_config_of c);
              (p1, s1) = manageTokens G a before (p, s);
              (answer, w2) = api_token_create G a body (fst s1);
              entry = (case cfg_name c of
                         None \<Rightarrow> []
                       | Some n \<Rightarrow>
                           if accepted answer \<and> startsWith n sell_prefix
                           then [\<lparr>ps_name = n, ps_remain_quota = cfg_remain_quota c\<rparr>] else []);
              s2 = (w2, snd s1 @ [TokenCreate a body]);
              (p3, s3) = manageTokens G a after ([], s2)
          in manageToken G a c (p1, s1) = (p1 @ entry, s2)
             \<and> manageTokens G a (before @ c # after) (p, s) = (p1 @ entry @ p3, s3))
       \<and> config_calls a c = [TokenCreate a (requestBody (create_config_of c))]
       \<and> new_calls s (snd (manageTokens G a cs (p, s))) = concat (map (config_calls a) cs)
       \<and> length (filter is_create (new_calls s (snd (manageTokens G a cs (p, s)))))
           = length (filter (\<lambda>c. \<not> truthy_id (cfg_id c)) cs)"
proof -
  obtain p1 s1 where b: "manageTokens G a before (p, s) = (p1, s1)"
    by (cases "manageTokens G a before (p, s)")
  let ?body = "requestBody (create_config_of c)"
  let ?entry = "case cfg_name c of
                  None \<Rightarrow> []
                | Some n \<Rightarrow>
                    if accepted (fst (api_token_create G a ?body (fst s1))) \<and> startsWith n sell_prefix
                    then [\<lparr>ps_name = n, ps_remain_quota = cfg_remain_quota c\<rparr>] else []"
  let ?s2 = "(snd (api_token_create G a ?body (fst s1)), snd s1 @ [TokenCreate a ?body])"
  have one: "manageToken G a c (p1, s1) = (p1 @ ?entry, ?s2)"
    using assms by (rule manageToken_create)
  have "manageTokens G a (before @ c # after) (p, s) = manageTokens G a after (p1 @ ?entry, ?s2)"
    by (simp add: manageTokens_append b one)
  also have "\<dots> = ((p1 @ ?entry) @ fst (manageTokens G a after ([], ?s2)),
                    snd (manageTokens G a after ([], ?s2)))"
    by (rule manageTokens_from_empty)
  finally have whole: "manageTokens G a (before @ c # after) (p, s) =
      (p1 @ ?entry @ fst (manageTokens G a after ([], ?s2)),
       snd (manageTokens G a after ([], ?s2)))"
    by simp
  have first: "let body = requestBody (create_config_of c);
              (p1, s1) = manageTokens G a before (p, s);
              (answer, w2) = api_token_create G a body (fst s1);
              entry = (case cfg_name c of
                         None \<Rightarrow> []
                       | Some n \<Rightarrow>
                           if accepted answer \<and> startsWith n sell_prefix
                           then [\<lparr>ps_name = n, ps_remain_quota = cfg_remain_quota c\<rparr>] else []);
              s2 = (w2, snd s1 @ [TokenCreate a body]);
              (p3, s3) = manageTokens G a after ([], s2)
          in manageToken G a c (p1, s1) = (p1 @ entry, s2)
             \<and> manageTokens G a (before @ c # after) (p, s) = (p1 @ entry @ p3, s3)"
    using one whole by (simp add: Let_def split_beta b)
  have calls: "config_calls a c = [TokenCreate a (requestBody (create_config_of c))]"
    using assms by (simp add: config_calls_def)
  have all: "new_calls s (snd (manageTokens G a cs (p, s))) = concat (map (config_calls a) cs)"
    by (simp add: new_calls_append manageTokens_trace)
  from first calls all show ?thesis
    by (simp only: count_creates simp_thms)
qed

theorem manageTokens_creates_witness:
  "cfg_id config_sale = None \<and>
   manageTokens scripted (IdNum 7) [config_sale, config_sale] ([], (script1, [])) =
     ([pending1, pending1],
      (script1, [TokenCreate (IdNum 7) (requestBody (create_config_of config_sale)),
                 TokenCreate (IdNum 7) (requestBody (create_config_of config_sale))])) \<and>
   manageTokens scripted (IdNum 7) [config_sale, config_sale] ([], (script_refuse, [])) =
     ([],
      (script_refuse, [TokenCreate (IdNum 7) (requestBody (create_config_of config_sale)),
                       TokenCreate (IdNum 7) (requestBody (create_config_of config_sale))]))"
proof -
  have h: "\<not> truthy_id (cfg_id config_sale)" "cfg_id config_sale = None"
    by (simp_all add: config_sale_def config_blank_def)
  have n: "cfg_name config_sale = Some (sell_prefix @ ascii ''x'')"
    "cfg_remain_quota config_sale = Some 500000"
    "startsWith (sell_prefix @ ascii ''x'') sell_prefix"
    by (simp_all add: config_sale_def config_blank_def sell_prefix_def)
  have g: "\<And>b. api_token_create scripted (IdNum 7) b script1 = (Fetch_response 200 True (), script1)"
    "\<And>b. api_token_create scripted (IdNum 7) b script_refuse
            = (Fetch_response 500 False (), script_refuse)"
    by (simp_all add: scripted_def script1_def script_refuse_def)
  have first: "\<And>w. manageTokens scripted (IdNum 7) [] ([], (w, [])) = ([], (w, []))"
    by simp
  note w1 = manageTokens_creates [OF h(1), where G = scripted and a = "IdNum 7" and before = "[]"
              and after = "[]" and p = "[]" and s = "(script1, [])" and cs = "[]"]
  note w2 = manageTokens_creates [OF h(1), where G = scripted and a = "IdNum 7"
              and before = "[config_sale]" and after = "[]" and p = "[]"
              and s = "(script1, [])" and cs = "[]"]
  note r1 = manageTokens_creates [OF h(1), where G = scripted and a = "IdNum 7" and before = "[]"
              and after = "[]" and p = "[]" and s = "(script_refuse, [])" and cs = "[]"]
  note r2 = manageTokens_creates [OF h(1), where G = scripted and a = "IdNum 7"
              and before = "[config_sale]" and after = "[]" and p = "[]"
              and s = "(script_refuse, [])" and cs = "[]"]
  have a1: "manageTokens scripted (IdNum 7) [config_sale] ([], (script1, [])) =
              ([pending1],
               (script1, [TokenCreate (IdNum 7) (requestBody (create_config_of config_sale))]))"
    using w1 n g by (simp add: Let_def pending1_def del: manageTokens.simps(2))
  have a2: "manageTokens scripted (IdNum 7) [config_sale, config_sale] ([], (script1, [])) =
     ([pending1, pending1],
      (script1, [TokenCreate (IdNum 7) (requestBody (create_config_of config_sale)),
                 TokenCreate (IdNum 7) (requestBody (create_config_of config_sale))]))"
    using w2 a1 n g by (simp add: Let_def pending1_def del: manageTokens.simps(2))
  have b1: "manageTokens scripted (IdNum 7) [config_sale] ([], (script_refuse, [])) =
              ([],
               (script_refuse, [TokenCreate (IdNum 7) (requestBody (create_config_of config_sale))]))"
    using r1 n g by (simp add: Let_def del: manageTokens.simps(2))
  have b2: "manageTokens scripted (IdNum 7) [config_sale, config_sale] ([], (script_refuse, [])) =
     ([],
      (script_refuse, [TokenCreate (IdNum 7) (requestBody (create_config_of config_sale)),
                       TokenCreate (IdNum 7) (requestBody (create_config_of config_sale))]))"
    using r2 b1 n g by (simp add: Let_def del: manageTokens.simps(2))
  from h(2) a2 b2 show ?thesis by blast
qed

text \<open>
  Claim C5, as amended.  For a configured token without an id the create call carries:
  the configured name, or \<open>dw\<close> when the name is absent or empty; the fixed fields
  \<open>expired_time = -1\<close>, \<open>group = default\<close> and so on; \<open>unlimited_quota = true\<close> and no
  \<open>remain_quota\<close> when the configuration is unlimited; otherwise no \<open>unlimited_quota\<close>
  and the configured \<open>remain_quota\<close>, or 500000 when that is absent or 0.
\<close>

theorem create_call_body:
  assumes "\<not> truthy_id (cfg_id c)"
  shows "new_calls s (snd (manageToken G a c (p, s))) =
     [TokenCreate a
        \<lparr>rb_name = (case cfg_name c of
                       None \<Rightarrow> ascii ''dw''
                     | Some n \<Rightarrow> if n = [] then ascii ''dw'' else n),
         rb_expired_time = - 1,
         rb_model_limits_enabled = False,
         rb_model_limits = [],
         rb_allow_ips = [],
         rb_group = ascii ''default'',
         rb_unlimited_quota = (if truthy_bool (cfg_unlimited_quota c) then Some True else None),
         rb_remain_quota =
           (if truthy_bool (cfg_unlimited_quota c) then None
            else Some (case cfg_remain_quota c of
                         None \<Rightarrow> 500000
                       | Some q \<Rightarrow> if q = 0 then 500000 else q))\<rparr>]"
proof -
  have "new_calls s (snd (manageToken G a c (p, s)))
          = [TokenCreate a (requestBody (create_config_of c))]"
    using assms by (simp add: new_calls_append manageToken_trace config_calls_def)
  then show ?thesis
    by (simp add: requestBody_def create_config_of_def split: option.splits)
qed

theorem create_call_body_witness:
  "\<not> truthy_id (cfg_id config_blank) \<and>
   new_calls (script1, [])
     (snd (manageToken scripted (IdNum 7)
            (config_blank\<lparr>cfg_name := Some (ascii ''k1''), cfg_remain_quota := Some 42\<rparr>)
            ([], (script1, [])))) =
     [TokenCreate (IdNum 7)
        \<lparr>rb_name = ascii ''k1'', rb_expired_time = - 1, rb_model_limits_enabled = False,
         rb_model_limits = [], rb_allow_ips = [], rb_group = ascii ''default'',
         rb_unlimited_quota = None, rb_remain_quota = Some 42\<rparr>]"
proof -
  have h: "\<not> truthy_id (cfg_id (config_blank\<lparr>cfg_name := Some (ascii ''k1''),
                                              cfg_remain_quota := Some 42\<rparr>))"
    by (simp add: config_blank_def)
  show ?thesis
    using create_call_body [OF h, of "(script1, [])" scripted "IdNum 7" "[]"]
    by (simp add: config_blank_def ascii_def)
qed

text \<open>
  Claim C5 as stated fails: for a configured token with no name the create call is
  named \<open>dw\<close>, not \<open>default\<close>.
\<close>

theorem create_default_name_counterexample:
  "cfg_id config_blank = None \<and> cfg_name config_blank = None \<and>
   new_calls (script1, [])
     (snd (manageToken scripted (IdNum 7) config_blank ([], (script1, [])))) =
     [TokenCreate (IdNum 7)
        \<lparr>rb_name = ascii ''dw'', rb_expired_time = - 1, rb_model_limits_enabled = False,
         rb_model_limits = [], rb_allow_ips = [], rb_group = ascii ''default'',
         rb_unlimited_quota = None, rb_remain_quota = Some 500000\<rparr>] \<and>
   ascii ''dw'' \<noteq> ascii ''default''"
proof -
  have "new_calls (script1, [])
          (snd (manageToken scripted (IdNum 7) config_blank ([], (script1, []))))
        = config_calls (IdNum 7) config_blank"
    by (simp add: new_calls_append manageToken_trace)
  then show ?thesis
    by (simp add: config_calls_def config_blank_def requestBody_def create_config_of_def ascii_def)
qed

section \<open>The invitation reward\<close>

lemma transferAffQuota_result:
  assumes "ud_aff_quota u = Some q" and "q > 0"
    and "fst (api_aff_transfer G a q (fst s)) \<noteq> Evaluate_throws"
  shows "fst (transferAffQuota G a u s)
           = Some (u\<lparr>ud_quota := ud_quota u + q, ud_aff_quota := Some 0\<rparr>)"
  using assms
  by (simp add: transferAffQuota_def perform_alt split: evaluated.splits)

lemma transferAffQuota_throws:
  assumes "ud_aff_quota u = Some q" and "q > 0"
    and "fst (api_aff_transfer G a q (fst s)) = Evaluate_throws"
  shows "fst (transferAffQuota G a u s) = None"
  using assms
  by (simp add: transferAffQuota_def perform_alt split: evaluated.splits)

lemma processUserInfo_keeps:
  assumes "fst (processUserInfo G a info u s) = Some r"
  shows "\<exists>v. fst (transferAffQuota G a u s) = Some v
            \<and> ud_quota r = ud_quota v \<and> ud_aff_quota r = ud_aff_quota v"
  using assms
  by (auto simp: processUserInfo_def split_beta split: option.splits if_splits)

text \<open>
  Claim C6.  When the user data has an invitation reward greater than 0 and the transfer
  call answers at all (success, refusal or a failed fetch), the reward is added to the
  balance and set to 0; the user data that the run then returns has that balance and
  that reward.  Balance 1000 with reward 200 gives balance 1200 and reward 0.
\<close>

theorem bonus_settlement:
  assumes "ud_aff_quota u = Some q" and "q > 0"
    and "fst (api_aff_transfer G a q (fst s)) \<noteq> Evaluate_throws"
  shows "fst (transferAffQuota G a u s)
           = Some (u\<lparr>ud_quota := ud_quota u + q, ud_aff_quota := Some 0\<rparr>)
       \<and> (case fst (processUserInfo G a info u s) of
            None \<Rightarrow> True
          | Some r \<Rightarrow> ud_quota r = ud_quota u + q \<and> ud_aff_quota r = Some 0)"
proof -
  have t: "fst (transferAffQuota G a u s)
             = Some (u\<lparr>ud_quota := ud_quota u + q, ud_aff_quota := Some 0\<rparr>)"
    using assms by (rule transferAffQuota_result)
  show ?thesis
  proof (cases "fst (processUserInfo G a info u s)")
    case None
    with t show ?thesis by simp
  next
    case (Some r)
    from processUserInfo_keeps [OF Some] t Some show ?thesis by auto
  qed
qed

theorem bonus_settlement_witness:
  "ud_quota user1 = 1000 \<and> ud_aff_quota user1 = Some 200 \<and>
   fst (transferAffQuota scripted (IdNum 7) user1 (script1\<lparr>sc_transfer := Fetch_error\<rparr>, []))
     = Some (user1\<lparr>ud_quota := 1200, ud_aff_quota := Some 0\<rparr>) \<and>
   fst (transferAffQuota scripted (IdNum 7) user1
          (script1\<lparr>sc_transfer := Fetch_response 500 False ()\<rparr>, []))
     = Some (user1\<lparr>ud_quota := 1200, ud_aff_quota := Some 0\<rparr>) \<and>
   fst (transferAffQuota scripted (IdNum 7) user1 (script1, []))
     = Some (user1\<lparr>ud_quota := 1200, ud_aff_quota := Some 0\<rparr>)"
proof -
  have q: "ud_aff_quota user1 = Some 200" "ud_quota user1 = 1000"
    by (simp_all add: user1_def)
  have e1: "fst (api_aff_transfer scripted (IdNum 7) 200
                  (fst (script1\<lparr>sc_transfer := Fetch_error\<rparr>, ([]::call list)))) \<noteq> Evaluate_throws"
    by (simp add: scripted_def)
  have e2: "fst (api_aff_transfer scripted (IdNum 7) 200
                  (fst (script1\<lparr>sc_transfer := Fetch_response 500 False ()\<rparr>, ([]::call list))))
              \<noteq> Evaluate_throws"
    by (simp add: scripted_def)
  have e3: "fst (api_aff_transfer scripted (IdNum 7) 200 (fst (script1, ([]::call list))))
              \<noteq> Evaluate_throws"
    by (simp add: scripted_def script1_def)
  show ?thesis
    using bonus_settlement [OF q(1) _ e1, of None]
          bonus_settlement [OF q(1) _ e2, of None]
          bonus_settlement [OF q(1) _ e3, of None] q
    by simp
qed

section \<open>The first token and the supplements\<close>

lemma supplementToken_calls_only:
  "calls_only is_update s (snd (supplementToken G a c (tokens, s)))"
  by (auto simp: supplementToken_def calls_only_iff split_beta Let_def split: option.splits)

lemma supplementTokens_calls_only:
  "calls_only is_update s (snd (supplementTokens G a cs (tokens, s)))"
proof (induction cs arbitrary: tokens s)
  case Nil
  show ?case by simp
next
  case (Cons c cs)
  obtain t1 s1 where step: "supplementToken G a c (tokens, s) = (t1, s1)"
    by (cases "supplementToken G a c (tokens, s)")
  have "calls_only is_update s s1"
    using supplementToken_calls_only [of s G a c tokens] step by simp
  moreover have "calls_only is_update s1 (snd (supplementTokens G a cs (t1, s1)))"
    by (rule Cons.IH)
  ultimately show ?case
    using step by (auto intro: calls_only_trans)
qed

lemma calls_only_mono:
  assumes "calls_only P s s'" and "\<And>c. P c \<Longrightarrow> Q c"
  shows "calls_only Q s s'"
  using assms by (auto simp: calls_only_iff list_all_iff)


lemma calls_only_filter_none:
  assumes "calls_only P s s'" and "\<And>c. P c \<Longrightarrow> \<not> Q c"
  shows "filter Q (new_calls s s') = []"
proof -
  from assms(1) obtain cs where cs: "snd s' = snd s @ cs" "list_all P cs"
    by (auto simp: calls_only_iff)
  then have "new_calls s s' = cs" by (simp add: new_calls_append)
  with cs(2) assms(2) show ?thesis
    by (auto simp: list_all_iff filter_empty_conv)
qed

lemma new_calls_trans:
  assumes "calls_only P s s1" and "calls_only Q s1 s2"
  shows "new_calls s s2 = new_calls s s1 @ new_calls s1 s2"
proof -
  from assms obtain cs ds where "snd s1 = snd s @ cs" "snd s2 = snd s1 @ ds"
    by (auto simp: calls_only_iff)
  then show ?thesis by (simp add: new_calls_def)
qed

lemma fetchTokens_empty:
  assumes "fst (getTokens G a s) = []"
  shows "new_calls s (snd (fetchTokens G a info s)) =
           TokenList a # TokenCreate a (requestBody fallback_config) #
           (if fst (createToken G a fallback_config (snd (getTokens G a s)))
            then [TokenList a] else [])"
    and "fst (fetchTokens G a info s) =
           (if fst (createToken G a fallback_config (snd (getTokens G a s)))
            then fst (getTokens G a (snd (createToken G a fallback_config (snd (getTokens G a s)))))
            else [])"
  using assms
  by (simp_all add: fetchTokens_def split_beta new_calls_def)

lemma fetchTokens_nonempty:
  assumes "fst (getTokens G a s) \<noteq> []"
  shows "fetchTokens G a info s =
           supplementTokens G a
             (case info of None \<Rightarrow> []
              | Some i \<Rightarrow> (case ai_tokens i of None \<Rightarrow> []
                           | Some configs \<Rightarrow> filter wants_supplement configs))
             (getTokens G a s)"
  using assms
  by (simp add: fetchTokens_def split_beta split: option.splits)


lemma update_first_length [simp]: "length (update_first P f xs) = length xs"
  by (induction xs) auto



lemmas run_defs = loginAndGetSession_def tryBlock_def startBrowser_def loginSteps_def establishSession_def
      processUserInfo_def transferAffQuota_def fetchTokens_def uploadSellTokens_def closeAll_def
      getTokens_def createToken_def updateToken_def deleteToken_def manageToken_def supplementToken_def
      perform_def scripted_def script1_def user1_def response_ok_def token1_def
      fallback_config_def requestBody_def ascii_def tokenView_def wants_supplement_def
      create_config_of_def info1_def config_blank_def sell_prefix_def jsString_def digits.simps




lemma find_update_first:
  assumes "find P xs = Some m" and "P (f m)"
  shows "find P (update_first P f xs) = Some (f m)"
  using assms by (induction xs) (auto split: if_splits)

lemma supplementToken_unmatched:
  assumes "find (\<lambda>t. tok_id t = cfg_id c) tokens = None"
  shows "supplementToken G a c (tokens, s) = (tokens, s)"
  using assms by (simp add: supplementToken_def)

lemma supplementToken_matched:
  assumes "find (\<lambda>t. tok_id t = cfg_id c) tokens = Some m"
    and "cfg_supplement_quota c = Some q" and "q > 0"
  shows "new_calls s (snd (supplementToken G a c (tokens, s))) =
           [TokenUpdate a (m\<lparr>tok_remain_quota :=
              Some ((case tok_remain_quota m of None \<Rightarrow> 0 | Some r \<Rightarrow> r) + q)\<rparr>)]"
    and "fst (supplementToken G a c (tokens, s)) =
           (case fst (updateToken G a (m\<lparr>tok_remain_quota :=
                   Some ((case tok_remain_quota m of None \<Rightarrow> 0 | Some r \<Rightarrow> r) + q)\<rparr>) s) of
              None \<Rightarrow> tokens
            | Some confirmed \<Rightarrow>
                update_first (\<lambda>t. tok_id t = cfg_id c)
                  (\<lambda>t. t\<lparr>tok_remain_quota := tok_remain_quota confirmed\<rparr>) tokens)"
proof -
  have q: "num_or (tok_remain_quota m) 0 + num_or (cfg_supplement_quota c) 0
             = (case tok_remain_quota m of None \<Rightarrow> 0 | Some r \<Rightarrow> r) + q"
    using assms(2,3) by (simp split: option.splits)
  show "new_calls s (snd (supplementToken G a c (tokens, s))) =
           [TokenUpdate a (m\<lparr>tok_remain_quota :=
              Some ((case tok_remain_quota m of None \<Rightarrow> 0 | Some r \<Rightarrow> r) + q)\<rparr>)]"
    using assms(1) q
    by (simp add: supplementToken_def split_beta Let_def new_calls_def split: option.splits)
  show "fst (supplementToken G a c (tokens, s)) =
           (case fst (updateToken G a (m\<lparr>tok_remain_quota :=
                   Some ((case tok_remain_quota m of None \<Rightarrow> 0 | Some r \<Rightarrow> r) + q)\<rparr>) s) of
              None \<Rightarrow> tokens
            | Some confirmed \<Rightarrow>
                update_first (\<lambda>t. tok_id t = cfg_id c)
                  (\<lambda>t. t\<lparr>tok_remain_quota := tok_remain_quota confirmed\<rparr>) tokens)"
    using assms(1) q
    by (simp add: supplementToken_def split_beta Let_def split: option.splits)
qed

lemma fetchTokens_empty_updates:
  assumes "fst (getTokens G a s) = []"
  shows "filter is_update (new_calls s (snd (fetchTokens G a info s))) = []"
  by (simp add: fetchTokens_empty(1) [OF assms])

lemma supplementTokens_append:
  "supplementTokens G a (xs @ ys) acc = supplementTokens G a ys (supplementTokens G a xs acc)"
  by (induction xs arbitrary: acc) simp_all

lemma supplementTokens_calls_only_acc:
  "calls_only is_update (snd acc) (snd (supplementTokens G a cs acc))"
  using supplementTokens_calls_only [of "snd acc" G a cs "fst acc"] by simp

lemma supplementToken_calls_only_acc:
  "calls_only is_update (snd acc) (snd (supplementToken G a c acc))"
  using supplementToken_calls_only [of "snd acc" G a c "fst acc"] by simp

lemma supplementToken_round_calls:
  assumes "cfg_supplement_quota c = Some q" and "q > 0"
  shows "new_calls s (snd (supplementToken G a c (tokens, s))) =
           (case find (\<lambda>t. tok_id t = cfg_id c) tokens of
              None \<Rightarrow> []
            | Some m \<Rightarrow>
                [TokenUpdate a (m\<lparr>tok_remain_quota :=
                   Some ((case tok_remain_quota m of None \<Rightarrow> 0 | Some r \<Rightarrow> r) + q)\<rparr>)])"
proof (cases "find (\<lambda>t. tok_id t = cfg_id c) tokens")
  case None
  then show ?thesis by (simp add: supplementToken_unmatched)
next
  case (Some m)
  then show ?thesis
    using supplementToken_matched(1) [OF Some assms, of s G a] by simp
qed

lemma fetchTokens_rounds:
  assumes "wants_supplement c" and "fst (getTokens G a s) \<noteq> []"
    and "ai_tokens info = Some (before @ c # after)"
  shows "fetchTokens G a (Some info) s =
           supplementTokens G a (filter wants_supplement after)
             (supplementToken G a c
                (supplementTokens G a (filter wants_supplement before) (getTokens G a s)))"
  using assms
  by (simp add: fetchTokens_nonempty supplementTokens_append)

text \<open>
  Claim C1, as amended.  Supplements are made only in a run whose token list, fetched
  after the management loop, is not empty.  In such a run take any configured token \<open>c\<close>
  with \<open>supplement_quota > 0\<close>, with the configured tokens before and after it.  The run
  supplements those before \<open>c\<close> that ask for it, then comes to \<open>c\<close>, then goes on with
  those after it; its calls are the fetch and the calls of the earlier rounds, then the
  calls of the round of \<open>c\<close>, then those of the later rounds.  In the round of \<open>c\<close> the
  first token of the list, as the earlier rounds left it, with the same id is looked up.
  If there is none, nothing is called and nothing changes.  If there is one, exactly one
  call is made, the update call with that token and \<open>remain_quota\<close> set to its current
  value (0 when absent) plus the supplement; when the update succeeds, that token's
  \<open>remain_quota\<close> in the list becomes the value in the response, and otherwise the list
  is unchanged.  In a run whose fetched list is empty no update call is made.
\<close>

theorem supplement_quota:
  assumes "cfg_supplement_quota c = Some q" and "q > 0"
  shows "wants_supplement c
    \<and> (case find (\<lambda>t. tok_id t = cfg_id c) tokens of
         None \<Rightarrow> supplementToken G a c (tokens, s) = (tokens, s)
       | Some m \<Rightarrow>
           new_calls s (snd (supplementToken G a c (tokens, s))) =
             [TokenUpdate a (m\<lparr>tok_remain_quota :=
                Some ((case tok_remain_quota m of None \<Rightarrow> 0 | Some r \<Rightarrow> r) + q)\<rparr>)]
           \<and> (case fst (updateToken G a (m\<lparr>tok_remain_quota :=
                   Some ((case tok_remain_quota m of None \<Rightarrow> 0 | Some r \<Rightarrow> r) + q)\<rparr>) s) of
                None \<Rightarrow> fst (supplementToken G a c (tokens, s)) = tokens
              | Some confirmed \<Rightarrow>
                  fst (supplementToken G a c (tokens, s)) =
                    update_first (\<lambda>t. tok_id t = cfg_id c)
                      (\<lambda>t. t\<lparr>tok_remain_quota := tok_remain_quota confirmed\<rparr>) tokens
                  \<and> find (\<lambda>t. tok_id t = cfg_id c) (fst (supplementToken G a c (tokens, s)))
                      = Some (m\<lparr>tok_remain_quota := tok_remain_quota confirmed\<rparr>)))
    \<and> (if fst (getTokens G a s) = []
       then filter is_update (new_calls s (snd (fetchTokens G a accountInfo s))) = []
       else fetchTokens G a accountInfo s =
              supplementTokens G a
                (case accountInfo of None \<Rightarrow> []
                 | Some i \<Rightarrow> (case ai_tokens i of None \<Rightarrow> []
                              | Some configs \<Rightarrow> filter wants_supplement configs))
                (getTokens G a s))
    \<and> (fst (getTokens G a s) \<noteq> [] \<and> ai_tokens info = Some (before @ c # after) \<longrightarrow>
         (let earlier = supplementTokens G a (filter wants_supplement before) (getTokens G a s);
              round = supplementToken G a c earlier;
              run = fetchTokens G a (Some info) s
          in run = supplementTokens G a (filter wants_supplement after) round
             \<and> new_calls s (snd run) =
                 new_calls s (snd earlier) @ new_calls (snd earlier) (snd round)
                 @ new_calls (snd round) (snd run)
             \<and> new_calls (snd earlier) (snd round) =
                 (case find (\<lambda>t. tok_id t = cfg_id c) (fst earlier) of
                    None \<Rightarrow> []
                  | Some m \<Rightarrow>
                      [TokenUpdate a (m\<lparr>tok_remain_quota :=
                         Some ((case tok_remain_quota m of None \<Rightarrow> 0 | Some r \<Rightarrow> r) + q)\<rparr>)])))"
proof -
  have w: "wants_supplement c"
    using assms by (simp add: wants_supplement_def)
  have step: "case find (\<lambda>t. tok_id t = cfg_id c) tokens of
         None \<Rightarrow> supplementToken G a c (tokens, s) = (tokens, s)
       | Some m \<Rightarrow>
           new_calls s (snd (supplementToken G a c (tokens, s))) =
             [TokenUpdate a (m\<lparr>tok_remain_quota :=
                Some ((case tok_remain_quota m of None \<Rightarrow> 0 | Some r \<Rightarrow> r) + q)\<rparr>)]
           \<and> (case fst (updateToken G a (m\<lparr>tok_remain_quota :=
                   Some ((case tok_remain_quota m of None \<Rightarrow> 0 | Some r \<Rightarrow> r) + q)\<rparr>) s) of
                None \<Rightarrow> fst (supplementToken G a c (tokens, s)) = tokens
              | Some confirmed \<Rightarrow>
                  fst (supplementToken G a c (tokens, s)) =
                    update_first (\<lambda>t. tok_id t = cfg_id c)
                      (\<lambda>t. t\<lparr>tok_remain_quota := tok_remain_quota confirmed\<rparr>) tokens
                  \<and> find (\<lambda>t. tok_id t = cfg_id c) (fst (supplementToken G a c (tokens, s)))
                      = Some (m\<lparr>tok_remain_quota := tok_remain_quota confirmed\<rparr>))"
  proof (cases "find (\<lambda>t. tok_id t = cfg_id c) tokens")
    case None
    then show ?thesis by (simp add: supplementToken_unmatched)
  next
    case (Some m)
    have idm: "tok_id m = cfg_id c"
      using Some by (auto simp: find_Some_iff)
    note calls = supplementToken_matched(1) [OF Some assms, of s G a]
    note toks = supplementToken_matched(2) [OF Some assms, of G a s]
    show ?thesis
    proof (cases "fst (updateToken G a (m\<lparr>tok_remain_quota :=
                   Some ((case tok_remain_quota m of None \<Rightarrow> 0 | Some r \<Rightarrow> r) + q)\<rparr>) s)")
      case None
      with Some calls toks show ?thesis by simp
    next
      case (Some confirmed)
      have "find (\<lambda>t. tok_id t = cfg_id c)
              (update_first (\<lambda>t. tok_id t = cfg_id c)
                 (\<lambda>t. t\<lparr>tok_remain_quota := tok_remain_quota confirmed\<rparr>) tokens)
            = Some (m\<lparr>tok_remain_quota := tok_remain_quota confirmed\<rparr>)"
        using \<open>find (\<lambda>t. tok_id t = cfg_id c) tokens = Some m\<close> idm
        by (intro find_update_first) simp_all
      with Some \<open>find (\<lambda>t. tok_id t = cfg_id c) tokens = Some m\<close> calls toks
      show ?thesis by simp
    qed
  qed
  have run: "if fst (getTokens G a s) = []
       then filter is_update (new_calls s (snd (fetchTokens G a accountInfo s))) = []
       else fetchTokens G a accountInfo s =
              supplementTokens G a
                (case accountInfo of None \<Rightarrow> []
                 | Some i \<Rightarrow> (case ai_tokens i of None \<Rightarrow> []
                              | Some configs \<Rightarrow> filter wants_supplement configs))
                (getTokens G a s)"
    using fetchTokens_empty_updates [of G a s accountInfo] fetchTokens_nonempty [of G a s accountInfo]
    by simp
  have rounds: "fst (getTokens G a s) \<noteq> [] \<and> ai_tokens info = Some (before @ c # after) \<longrightarrow>
         (let earlier = supplementTokens G a (filter wants_supplement before) (getTokens G a s);
              round = supplementToken G a c earlier;
              run = fetchTokens G a (Some info) s
          in run = supplementTokens G a (filter wants_supplement after) round
             \<and> new_calls s (snd run) =
                 new_calls s (snd earlier) @ new_calls (snd earlier) (snd round)
                 @ new_calls (snd round) (snd run)
             \<and> new_calls (snd earlier) (snd round) =
                 (case find (\<lambda>t. tok_id t = cfg_id c) (fst earlier) of
                    None \<Rightarrow> []
                  | Some m \<Rightarrow>
                      [TokenUpdate a (m\<lparr>tok_remain_quota :=
                         Some ((case tok_remain_quota m of None \<Rightarrow> 0 | Some r \<Rightarrow> r) + q)\<rparr>)]))"
  proof
    assume h: "fst (getTokens G a s) \<noteq> [] \<and> ai_tokens info = Some (before @ c # after)"
    let ?earlier = "supplementTokens G a (filter wants_supplement before) (getTokens G a s)"
    let ?round = "supplementToken G a c ?earlier"
    let ?run = "fetchTokens G a (Some info) s"
    have eq: "?run = supplementTokens G a (filter wants_supplement after) ?round"
      using w h by (intro fetchTokens_rounds) simp_all
    have c0: "calls_only (\<lambda>c. True) s (snd (getTokens G a s))"
      by (simp add: calls_only_iff list_all_iff)
    have c1: "calls_only (\<lambda>c. True) (snd (getTokens G a s)) (snd ?earlier)"
      using supplementTokens_calls_only_acc by (rule calls_only_mono) simp
    have c01: "calls_only (\<lambda>c. True) s (snd ?earlier)"
      using c0 c1 by (rule calls_only_trans)
    have c2: "calls_only (\<lambda>c. True) (snd ?earlier) (snd ?round)"
      using supplementToken_calls_only_acc by (rule calls_only_mono) simp
    have c3: "calls_only (\<lambda>c. True) (snd ?round) (snd ?run)"
      unfolding eq using supplementTokens_calls_only_acc by (rule calls_only_mono) simp
    have c23: "calls_only (\<lambda>c. True) (snd ?earlier) (snd ?run)"
      using c2 c3 by (rule calls_only_trans)
    have t1: "new_calls s (snd ?run) = new_calls s (snd ?earlier) @ new_calls (snd ?earlier) (snd ?run)"
      using c01 c23 by (rule new_calls_trans)
    have t2: "new_calls (snd ?earlier) (snd ?run)
                = new_calls (snd ?earlier) (snd ?round) @ new_calls (snd ?round) (snd ?run)"
      using c2 c3 by (rule new_calls_trans)
    have r: "new_calls (snd ?earlier) (snd ?round) =
                 (case find (\<lambda>t. tok_id t = cfg_id c) (fst ?earlier) of
                    None \<Rightarrow> []
                  | Some m \<Rightarrow>
                      [TokenUpdate a (m\<lparr>tok_remain_quota :=
                         Some ((case tok_remain_quota m of None \<Rightarrow> 0 | Some r \<Rightarrow> r) + q)\<rparr>)])"
      using supplementToken_round_calls [OF assms, of "snd ?earlier" G a "fst ?earlier"] by simp
    show "let earlier = ?earlier; round = supplementToken G a c earlier; run = ?run
          in run = supplementTokens G a (filter wants_supplement after) round
             \<and> new_calls s (snd run) =
                 new_calls s (snd earlier) @ new_calls (snd earlier) (snd round)
                 @ new_calls (snd round) (snd run)
             \<and> new_calls (snd earlier) (snd round) =
                 (case find (\<lambda>t. tok_id t = cfg_id c) (fst earlier) of
                    None \<Rightarrow> []
                  | Some m \<Rightarrow>
                      [TokenUpdate a (m\<lparr>tok_remain_quota :=
                         Some ((case tok_remain_quota m of None \<Rightarrow> 0 | Some r \<Rightarrow> r) + q)\<rparr>)])"
      unfolding Let_def using eq t1 t2 r by simp
  qed
  from w step run rounds show ?thesis by blast
qed

theorem supplement_quota_witness:
  "cfg_supplement_quota config_supplement = Some 50 \<and>
   find (\<lambda>t. tok_id t = cfg_id config_supplement) [token1] = Some token1 \<and>
   tok_remain_quota token1 = Some 100 \<and>
   new_calls (script1, [])
     (snd (supplementToken scripted (IdNum 7) config_supplement ([token1], (script1, []))))
     = [TokenUpdate (IdNum 7) (token1\<lparr>tok_remain_quota := Some 150\<rparr>)] \<and>
   fst (supplementToken scripted (IdNum 7) config_supplement ([token1], (script1, [])))
     = [token1\<lparr>tok_remain_quota := Some 149\<rparr>] \<and>
   ai_tokens (info1\<lparr>ai_tokens := Some [config_blank, config_supplement]\<rparr>)
     = Some [config_blank, config_supplement] \<and>
   fst (getTokens scripted (IdNum 7) (script1, [])) = [token1] \<and>
   new_calls (script1, [])
     (snd (fetchTokens scripted (IdNum 7)
             (Some (info1\<lparr>ai_tokens := Some [config_blank, config_supplement]\<rparr>)) (script1, [])))
     = [TokenList (IdNum 7), TokenUpdate (IdNum 7) (token1\<lparr>tok_remain_quota := Some 150\<rparr>)] \<and>
   fst (fetchTokens scripted (IdNum 7)
          (Some (info1\<lparr>ai_tokens := Some [config_blank, config_supplement]\<rparr>)) (script1, []))
     = [token1\<lparr>tok_remain_quota := Some 149\<rparr>]"
proof -
  have h: "cfg_supplement_quota config_supplement = Some 50" "(50::int) > 0"
    by (simp_all add: config_supplement_def config_blank_def)
  have f: "find (\<lambda>t. tok_id t = cfg_id config_supplement) [token1] = Some token1"
    by (simp add: config_supplement_def config_blank_def token1_def)
  have r: "tok_remain_quota token1 = Some 100"
    by (simp add: token1_def)
  have u: "\<And>w tr. sc_update w = sc_update script1 \<Longrightarrow>
             updateToken scripted (IdNum 7) (token1\<lparr>tok_remain_quota := Some 150\<rparr>) (w, tr)
               = (Some (token1\<lparr>tok_remain_quota := Some 149\<rparr>),
                  (w, tr @ [TokenUpdate (IdNum 7) (token1\<lparr>tok_remain_quota := Some 150\<rparr>)]))"
    by (simp add: updateToken_def perform_def scripted_def script1_def)
  have i: "tok_id token1 = cfg_id config_supplement"
    by (simp add: config_supplement_def config_blank_def token1_def)
  have t: "ai_tokens (info1\<lparr>ai_tokens := Some [config_blank, config_supplement]\<rparr>)
             = Some ([config_blank] @ config_supplement # [])"
    by simp
  have g: "getTokens scripted (IdNum 7) (script1, [])
             = ([token1], (script1\<lparr>sc_token_lists := []\<rparr>, [TokenList (IdNum 7)]))"
    by (simp add: getTokens_def perform_def scripted_def script1_def)
  have nb: "filter wants_supplement [config_blank] = []"
    by (simp add: wants_supplement_def config_blank_def)
  note w = supplement_quota [OF h, where tokens = "[token1]" and G = scripted and a = "IdNum 7"
             and s = "(script1, [])" and accountInfo = None
             and info = "info1\<lparr>ai_tokens := Some [config_blank, config_supplement]\<rparr>"
             and before = "[config_blank]" and after = "[]"]
  have one: "new_calls (script1, [])
     (snd (supplementToken scripted (IdNum 7) config_supplement ([token1], (script1, []))))
     = [TokenUpdate (IdNum 7) (token1\<lparr>tok_remain_quota := Some 150\<rparr>)] \<and>
   fst (supplementToken scripted (IdNum 7) config_supplement ([token1], (script1, [])))
     = [token1\<lparr>tok_remain_quota := Some 149\<rparr>]"
    using w f r u [of script1 "[]"] i by simp
  have round: "supplementToken scripted (IdNum 7) config_supplement
                 ([token1], (script1\<lparr>sc_token_lists := []\<rparr>, [TokenList (IdNum 7)]))
               = ([token1\<lparr>tok_remain_quota := Some 149\<rparr>],
                  (script1\<lparr>sc_token_lists := []\<rparr>,
                   [TokenList (IdNum 7),
                    TokenUpdate (IdNum 7) (token1\<lparr>tok_remain_quota := Some 150\<rparr>)]))"
    using f r i h(1) u [of "script1\<lparr>sc_token_lists := []\<rparr>" "[TokenList (IdNum 7)]"]
    by (simp add: supplementToken_def)
  from w t g nb round
  have whole: "fetchTokens scripted (IdNum 7)
             (Some (info1\<lparr>ai_tokens := Some [config_blank, config_supplement]\<rparr>)) (script1, [])
           = ([token1\<lparr>tok_remain_quota := Some 149\<rparr>],
                  (script1\<lparr>sc_token_lists := []\<rparr>,
                   [TokenList (IdNum 7),
                    TokenUpdate (IdNum 7) (token1\<lparr>tok_remain_quota := Some 150\<rparr>)]))"
    by (simp add: Let_def)
  from h(1) f r one whole g show ?thesis
    by (simp add: new_calls_def)
qed

text \<open>
  Claim C1 as stated fails: when the first fetch of the token list fails, the fallback
  token is created and the second fetch lists the token with id 1, the configured
  supplement of 50 for that token is not made: no update call is issued and the token
  is returned with its old quota.
\<close>

theorem supplement_skipped_counterexample:
  "(case loginAndGetSession scripted (ascii ''alice'') (ascii ''pw'')
           (Some (info1\<lparr>ai_tokens := Some [config_supplement]\<rparr>)) (script_late, []) of
      (result, s) \<Rightarrow>
        wants_supplement config_supplement \<and>
        map_option (\<lambda>r. ud_tokens (ls_userInfo r)) result = Some (Some [tokenView token1]) \<and>
        tok_id token1 = cfg_id config_supplement \<and>
        filter is_create (snd s) = [TokenCreate (IdNum 7) (requestBody fallback_config)] \<and>
        filter is_update (snd s) = [])"
  by (simp add: run_defs script_late_def config_supplement_def)

section \<open>The upload of the tokens for sale\<close>

lemma find_first_index:
  "(\<exists>m. find P xs = Some m \<and> Q m) \<longleftrightarrow>
   (\<exists>i<length xs. P (xs ! i) \<and> (\<forall>j<i. \<not> P (xs ! j)) \<and> Q (xs ! i))"
  by (auto simp: find_Some_iff)

lemma keyToUpload_cases:
  "keyToUpload info tokens p =
     (case find (\<lambda>t. tok_name t = Some (ps_name p)) tokens of
        None \<Rightarrow> []
      | Some m \<Rightarrow>
          if truthy_str (tok_key m)
          then [\<lparr>kd_key = tok_key m,
                 kd_key_type = Some (ascii ''anyrouter''),
                 kd_is_sold = Some False,
                 kd_quota = Some (case ps_remain_quota p of
                                    None \<Rightarrow> 0 | Some q \<Rightarrow> of_int q / 500000),
                 kd_source_name =
                   Some ((case ai_username info of None \<Rightarrow> [] | Some u \<Rightarrow> u)
                         @ ascii ''&'' @ ps_name p),
                 kd_account_id = ai_id info\<rparr>]
          else [])"
  by (simp add: keyToUpload_def split: option.splits)

lemma addKeys_trace:
  "\<exists>cs. snd (snd (addKeys G ks s)) = snd s @ AddKeys ks # cs
        \<and> list_all (\<lambda>c. \<not> is_addKeys c \<and> keys_carried c \<le> 100) cs"
  by (auto simp: addKeys_def Let_def perform_alt split: option.splits)

lemma addKeys_too_many:
  assumes "length ks > 100"
  shows "addKeys G ks s = (Some (Add_invalid Too_many_keys), (fst s, snd s @ [AddKeys ks]))"
  using assms by (auto simp: addKeys_def Let_def)

lemma uploadSellTokens_addKeys:
  "filter is_addKeys (new_calls s (snd (uploadSellTokens G accountInfo pending tokens s))) =
     (case accountInfo of
        None \<Rightarrow> []
      | Some info \<Rightarrow>
          if keysToUpload info tokens pending = [] then []
          else [AddKeys (keysToUpload info tokens pending)])"
proof (cases accountInfo)
  case None
  then show ?thesis by (simp add: uploadSellTokens_def)
next
  case (Some info)
  show ?thesis
  proof (cases "pending = [] \<or> keysToUpload info tokens pending = []")
    case True
    then show ?thesis
      using Some by (auto simp: uploadSellTokens_def keysToUpload_def)
  next
    case False
    obtain cs where cs:
      "snd (snd (addKeys G (keysToUpload info tokens pending) s))
         = snd s @ AddKeys (keysToUpload info tokens pending) # cs"
      "list_all (\<lambda>c. \<not> is_addKeys c \<and> keys_carried c \<le> 100) cs"
      using addKeys_trace by blast
    have "filter is_addKeys cs = []"
      using cs(2) by (auto simp: list_all_iff filter_empty_conv)
    then show ?thesis
      using Some False cs(1)
      by (simp add: uploadSellTokens_def split_beta new_calls_def)
  qed
qed

text \<open>
  Claim C7, as amended.  A pending sale token leads to at most one record, and to one
  exactly when the first token of the final list with that name has a non-empty key.
  The record has that token's key, key type \<open>anyrouter\<close>, \<open>is_sold\<close> false, as quota the
  pending \<open>remain_quota\<close> divided by 500000 (0 when it is absent), as source name the
  \<open>username\<close> of the account information (empty when absent), \<open>&\<close> and the token name, and
  the \<open>_id\<close> of the account information.  The records of all pending tokens, in order,
  are handed to \<open>addKeys\<close> in one call, and no call is made when there is no record.
\<close>

theorem sale_record:
  "length (keyToUpload info tokens p) \<le> 1
   \<and> (keyToUpload info tokens p \<noteq> [] \<longleftrightarrow>
        (\<exists>i<length tokens.
            tok_name (tokens ! i) = Some (ps_name p) \<and>
            (\<forall>j<i. tok_name (tokens ! j) \<noteq> Some (ps_name p)) \<and>
            truthy_str (tok_key (tokens ! i))))
   \<and> (\<forall>k\<in>set (keyToUpload info tokens p).
        (\<exists>m. find (\<lambda>t. tok_name t = Some (ps_name p)) tokens = Some m \<and> kd_key k = tok_key m) \<and>
        kd_key_type k = Some (ascii ''anyrouter'') \<and>
        kd_is_sold k = Some False \<and>
        kd_quota k = Some (case ps_remain_quota p of None \<Rightarrow> 0 | Some q \<Rightarrow> of_int q / 500000) \<and>
        kd_source_name k =
          Some ((case ai_username info of None \<Rightarrow> [] | Some u \<Rightarrow> u) @ ascii ''&'' @ ps_name p) \<and>
        kd_account_id k = ai_id info)
   \<and> filter is_addKeys (new_calls s (snd (uploadSellTokens G (Some info) pending tokens s))) =
       (if concat (map (keyToUpload info tokens) pending) = [] then []
        else [AddKeys (concat (map (keyToUpload info tokens) pending))])"
proof -
  have a: "length (keyToUpload info tokens p) \<le> 1"
    by (simp add: keyToUpload_cases split: option.splits)
  have "keyToUpload info tokens p \<noteq> [] \<longleftrightarrow>
          (\<exists>m. find (\<lambda>t. tok_name t = Some (ps_name p)) tokens = Some m \<and> truthy_str (tok_key m))"
    by (simp add: keyToUpload_cases split: option.splits)
  then have b: "keyToUpload info tokens p \<noteq> [] \<longleftrightarrow>
        (\<exists>i<length tokens.
            tok_name (tokens ! i) = Some (ps_name p) \<and>
            (\<forall>j<i. tok_name (tokens ! j) \<noteq> Some (ps_name p)) \<and>
            truthy_str (tok_key (tokens ! i)))"
    by (simp only: find_first_index)
  have c: "\<forall>k\<in>set (keyToUpload info tokens p).
        (\<exists>m. find (\<lambda>t. tok_name t = Some (ps_name p)) tokens = Some m \<and> kd_key k = tok_key m) \<and>
        kd_key_type k = Some (ascii ''anyrouter'') \<and>
        kd_is_sold k = Some False \<and>
        kd_quota k = Some (case ps_remain_quota p of None \<Rightarrow> 0 | Some q \<Rightarrow> of_int q / 500000) \<and>
        kd_source_name k =
          Some ((case ai_username info of None \<Rightarrow> [] | Some u \<Rightarrow> u) @ ascii ''&'' @ ps_name p) \<and>
        kd_account_id k = ai_id info"
  proof (cases "find (\<lambda>t. tok_name t = Some (ps_name p)) tokens")
    case None
    then show ?thesis by (simp add: keyToUpload_cases)
  next
    case (Some m)
    then show ?thesis by (simp add: keyToUpload_cases)
  qed
  have d: "filter is_addKeys (new_calls s (snd (uploadSellTokens G (Some info) pending tokens s))) =
       (if concat (map (keyToUpload info tokens) pending) = [] then []
        else [AddKeys (concat (map (keyToUpload info tokens) pending))])"
    using uploadSellTokens_addKeys [of s G "Some info" pending tokens]
    by (simp add: keysToUpload_def)
  from a b c d show ?thesis by blast
qed

theorem sale_record_witness:
  "keyToUpload info1 [token1] pending1 = [key1] \<and> keyToUpload info1 [] pending1 = []"
proof -
  have n: "tok_name token1 = Some (ps_name pending1)" "truthy_str (tok_key token1)"
    "find (\<lambda>t. tok_name t = Some (ps_name pending1)) [token1] = Some token1"
    by (simp_all add: token1_def pending1_def ascii_def)
  have v: "tok_key token1 = kd_key key1" "ai_username info1 = Some (ascii ''alice'')"
    "ai_id info1 = kd_account_id key1" "ps_remain_quota pending1 = Some 500000"
    by (simp_all add: token1_def key1_def info1_def pending1_def)
  note w1 = sale_record [where info = info1 and tokens = "[token1]" and p = pending1
                           and pending = "[]" and G = scripted and s = "(script1, [])"]
  note w2 = sale_record [where info = info1 and tokens = "[]" and p = pending1
                           and pending = "[]" and G = scripted and s = "(script1, [])"]
  from w1 n have ne: "keyToUpload info1 [token1] pending1 \<noteq> []" by simp
  from w1 have le: "length (keyToUpload info1 [token1] pending1) \<le> 1" by blast
  from ne le obtain k where k: "keyToUpload info1 [token1] pending1 = [k]"
    by (cases "keyToUpload info1 [token1] pending1") auto
  from w1 k n v have "k = key1"
    by (simp add: key1_def ascii_def pending1_def)
  moreover from w2 have "keyToUpload info1 [] pending1 = []" by simp
  ultimately show ?thesis using k by simp
qed

text \<open>
  Claim C7 as stated fails: the final list holds a token with the name of the pending
  sale token and the key \<open>abc\<close>, but a token of the same name without a key comes first,
  and nothing is handed to \<open>addKeys\<close>.
\<close>

theorem first_match_counterexample:
  "(case loginAndGetSession scripted (ascii ''alice'') (ascii ''pw'')
           (Some (info1\<lparr>ai_tokens := Some [config_sale]\<rparr>)) (script_dup, []) of
      (result, s) \<Rightarrow>
        map_option (\<lambda>r. ud_tokens (ls_userInfo r)) result
          = Some (Some [tokenView token_nokey, tokenView token1]) \<and>
        tok_name token1 = cfg_name config_sale \<and> tok_key token1 = Some (ascii ''abc'') \<and>
        filter is_create (snd s) = [TokenCreate (IdNum 7) (requestBody (create_config_of config_sale))] \<and>
        filter is_addKeys (snd s) = [])"
  by (simp add: run_defs script_dup_def config_sale_def token_nokey_def keysToUpload_def
        keyToUpload_def)

section \<open>The calls of a whole run\<close>

lemma startBrowser_calls: "calls_only (body_call info) s (snd (startBrowser G s))"
  by (simp add: startBrowser_def split_beta perform_alt calls_only_iff)

lemma establishSession_calls:
  "calls_only (body_call info) s (snd (establishSession G u p s))"
  by (simp add: establishSession_def split_beta perform_alt calls_only_iff
           split: evaluated.splits option.splits)

lemma transferAffQuota_calls:
  "calls_only (body_call info) s (snd (transferAffQuota G a u s))"
  by (simp add: transferAffQuota_def split_beta perform_alt calls_only_iff
           split: evaluated.splits option.splits)

lemma config_calls_body: "list_all (body_call (Some i)) (config_calls a c)"
  by (simp add: config_calls_def)

lemma manageTokens_calls:
  "calls_only (body_call (Some i)) s (snd (manageTokens G a configs (p, s)))"
  by (auto simp: calls_only_iff manageTokens_trace list_all_iff config_calls_def
           split: if_splits)

lemma fetchTokens_calls:
  "calls_only (body_call info) s (snd (fetchTokens G a info s))"
proof (cases "fst (getTokens G a s) = []")
  case True
  have "snd (snd (fetchTokens G a info s)) = snd s @ new_calls s (snd (fetchTokens G a info s))"
    using True by (simp add: fetchTokens_def split_beta new_calls_def)
  then show ?thesis
    by (simp add: calls_only_iff fetchTokens_empty(1) [OF True])
next
  case False
  let ?cs = "case info of None \<Rightarrow> []
              | Some i \<Rightarrow> (case ai_tokens i of None \<Rightarrow> []
                           | Some configs \<Rightarrow> filter wants_supplement configs)"
  obtain t1 s1 where g: "getTokens G a s = (t1, s1)"
    by (cases "getTokens G a s")
  have a1: "calls_only (body_call info) s s1"
    using getTokens_trace [of G a s] g by (simp add: calls_only_iff)
  have a2: "calls_only (body_call info) s1 (snd (supplementTokens G a ?cs (t1, s1)))"
  proof (cases info)
    case None
    then show ?thesis by simp
  next
    case (Some i)
    have "calls_only is_update s1 (snd (supplementTokens G a ?cs (t1, s1)))"
      by (rule supplementTokens_calls_only)
    then show ?thesis
    proof (rule calls_only_mono)
      fix c assume "is_update c"
      then show "body_call info c" using Some by (cases c) auto
    qed
  qed
  show ?thesis
    using calls_only_trans [OF a1 a2] fetchTokens_nonempty [OF False, of info] g by simp
qed

lemma addKeys_calls:
  "calls_only (body_call (Some i)) s (snd (addKeys G ks s))"
  by (auto simp: addKeys_def Let_def perform_alt calls_only_iff split: option.splits)

lemma uploadSellTokens_calls:
  "calls_only (body_call info) s (snd (uploadSellTokens G info pending tokens s))"
  by (cases info) (simp_all add: uploadSellTokens_def split_beta addKeys_calls)

lemma processUserInfo_calls:
  "calls_only (body_call info) s (snd (processUserInfo G a info u s))"
proof -
  let ?s1 = "snd (transferAffQuota G a u s)"
  let ?m = "case info of
              None \<Rightarrow> ([], ?s1)
            | Some i \<Rightarrow> (case ai_tokens i of
                           None \<Rightarrow> ([], ?s1)
                         | Some configs \<Rightarrow> manageTokens G a configs ([], ?s1))"
  let ?f = "fetchTokens G a info (snd ?m)"
  let ?s4 = "snd (uploadSellTokens G info (fst ?m) (fst ?f) (snd ?f))"
  have c1: "calls_only (body_call info) s ?s1"
    by (rule transferAffQuota_calls)
  have c2: "calls_only (body_call info) ?s1 (snd ?m)"
    by (cases info) (simp_all add: manageTokens_calls split: option.splits)
  have c3: "calls_only (body_call info) (snd ?m) (snd ?f)"
    by (rule fetchTokens_calls)
  have c4: "calls_only (body_call info) (snd ?f) ?s4"
    by (rule uploadSellTokens_calls)
  have c14: "calls_only (body_call info) s ?s4"
    using c1 c2 c3 c4 by (blast intro: calls_only_trans)
  have "snd (processUserInfo G a info u s) = ?s1 \<or> snd (processUserInfo G a info u s) = ?s4"
    by (simp add: processUserInfo_def split_beta split: option.splits)
  then show ?thesis
    using c1 c14 by auto
qed

lemma loginSteps_calls:
  "calls_only (body_call info) s (snd (loginSteps G u p info s))"
proof -
  let ?e = "establishSession G u p s"
  have c1: "calls_only (body_call info) s (snd ?e)"
    by (rule establishSession_calls)
  show ?thesis
  proof (cases "fst ?e")
    case Throw
    then show ?thesis using c1 by (simp add: loginSteps_def split_beta)
  next
    case Return_null
    then show ?thesis using c1 by (simp add: loginSteps_def split_beta)
  next
    case (Continue x)
    obtain a ck lu where x: "x = (a, ck, lu)" by (cases x)
    let ?s2 = "snd (perform (SignIn a) (api_sign_in G a) (snd ?e))"
    let ?s3 = "snd (perform (UserSelf a) (api_self G a) ?s2)"
    have c2: "calls_only (body_call info) (snd ?e) ?s2"
      by (rule calls_only_perform) simp
    have c3: "calls_only (body_call info) ?s2 ?s3"
      by (rule calls_only_perform) simp
    have c4: "\<And>v. calls_only (body_call info) ?s3 (snd (processUserInfo G a info v ?s3))"
      by (rule processUserInfo_calls)
    have c12: "calls_only (body_call info) s ?s2"
      using c1 c2 by (rule calls_only_trans)
    have c13: "calls_only (body_call info) s ?s3"
      using c12 c3 by (rule calls_only_trans)
    have c14: "\<And>v. calls_only (body_call info) s (snd (processUserInfo G a info v ?s3))"
      using c13 c4 by (rule calls_only_trans)
    have "snd (loginSteps G u p info s) = ?s2 \<or> snd (loginSteps G u p info s) = ?s3
          \<or> (\<exists>v. snd (loginSteps G u p info s) = snd (processUserInfo G a info v ?s3))"
      using Continue x
      by (auto simp: loginSteps_def split_beta Let_def split: evaluated.splits option.splits)
    then show ?thesis
      using c12 c13 c14 by auto
  qed
qed

lemma tryBlock_calls:
  "calls_only (body_call info) s (snd (tryBlock G u p info s))"
proof -
  let ?b = "startBrowser G s"
  have c1: "calls_only (body_call info) s (snd ?b)"
    by (rule startBrowser_calls)
  have c2: "calls_only (body_call info) (snd ?b) (snd (loginSteps G u p info (snd ?b)))"
    by (rule loginSteps_calls)
  have "snd (tryBlock G u p info s) = snd ?b
        \<or> snd (tryBlock G u p info s) = snd (loginSteps G u p info (snd ?b))"
    by (simp add: tryBlock_def split_beta)
  then show ?thesis
    using c1 calls_only_trans [OF c1 c2] by auto
qed

lemma body_call_not_close: "body_call info c \<Longrightarrow> \<not> is_close c"
  by (cases c rule: is_close.cases) auto

lemma tryBlock_no_close:
  "filter is_close (new_calls s (snd (tryBlock G u p info s))) = []"
  using tryBlock_calls by (rule calls_only_filter_none) (rule body_call_not_close)

lemma closeAll_trace:
  "\<exists>cs. snd (closeAll G h s) = snd s @ cs
        \<and> subseq (filter is_close cs) [Browser PageClose, Browser ContextClose, Browser BrowserClose]
        \<and> list_all (\<lambda>c. is_close c \<or> c = PageIsClosed) cs"
  by (cases "h_page h"; cases "h_context h"; cases "h_browser h")
     (auto simp: closeAll_def split_beta perform_alt split: option.splits bool.splits)

lemma closeAll_complete:
  assumes "\<And>w. fst (page_isClosed G w) \<noteq> None"
    and "\<And>b w. is_close (Browser b) \<Longrightarrow> fst (browser_op G b w)"
  shows "filter is_close (new_calls s (closeAll G h s)) =
           (if h_page h \<and> fst (page_isClosed G (fst s)) = Some False
            then [Browser PageClose] else [])
           @ (if h_context h then [Browser ContextClose] else [])
           @ (if h_browser h then [Browser BrowserClose] else [])"
proof -
  have p: "\<And>w. fst (browser_op G PageClose w)" "\<And>w. fst (browser_op G ContextClose w)"
    "\<And>w. fst (browser_op G BrowserClose w)"
    using assms(2) by simp_all
  show ?thesis
    using assms(1) [of "fst s"] p
    by (cases "h_page h"; cases "h_context h"; cases "h_browser h")
       (auto simp: closeAll_def split_beta perform_alt new_calls_def
             split: option.splits bool.splits)
qed

lemma run_state:
  "snd (loginAndGetSession G u p info s)
     = closeAll G (snd (fst (tryBlock G u p info s))) (snd (tryBlock G u p info s))"
  by (simp add: loginAndGetSession_def split_beta split: step.splits)

lemma run_result:
  "fst (loginAndGetSession G u p info s)
     = (case fst (fst (tryBlock G u p info s)) of Continue r \<Rightarrow> Some r | _ \<Rightarrow> None)"
  by (simp add: loginAndGetSession_def split_beta split: step.splits)

lemma run_close_calls:
  "filter is_close (new_calls s (snd (loginAndGetSession G u p info s)))
     = filter is_close (new_calls (snd (tryBlock G u p info s))
                          (snd (loginAndGetSession G u p info s)))"
proof -
  let ?t = "tryBlock G u p info s"
  obtain cs where cs: "snd (closeAll G (snd (fst ?t)) (snd ?t)) = snd (snd ?t) @ cs"
    using closeAll_trace by blast
  then have c2: "calls_only (\<lambda>c. True) (snd ?t) (snd (loginAndGetSession G u p info s))"
    by (simp add: run_state calls_only_iff list_all_iff)
  have "new_calls s (snd (loginAndGetSession G u p info s))
          = new_calls s (snd ?t) @ new_calls (snd ?t) (snd (loginAndGetSession G u p info s))"
    using tryBlock_calls c2 by (rule new_calls_trans)
  then show ?thesis
    by (simp add: tryBlock_no_close)
qed

lemma startBrowser_handles:
  "snd (fst (startBrowser G s)) =
     (let launch = browser_op G Launch (fst s);
          context = browser_op G NewContext (snd launch);
          stealth = browser_op G ApplyStealth (snd context);
          page = browser_op G NewPage (snd stealth)
      in \<lparr>h_browser = fst launch,
          h_context = (fst launch \<and> fst context),
          h_page = (fst launch \<and> fst context \<and> fst stealth \<and> fst page)\<rparr>)"
  by (simp add: startBrowser_def split_beta perform_alt Let_def)

lemma tryBlock_handles:
  "snd (fst (tryBlock G u p info s)) = snd (fst (startBrowser G s))"
  by (simp add: tryBlock_def split_beta)

text \<open>
  Claim C10, as amended.  The browser is held when \<open>chromium.launch\<close> completed, the
  context when \<open>newContext\<close> then completed too, and the page when after these the stealth
  script was applied and \<open>newPage\<close> completed; an exception at any of these steps, or at
  \<open>page.goto\<close>, or anywhere later, leaves what is held as it is.  For every outcome of
  the \<open>try\<close> block (a returned session, a returned null, an exception anywhere) the
  \<open>finally\<close> block runs once, after it, and no close call is made before it.  In the
  whole run the closes of page, context and browser are each called at most once, in
  this order.  If neither \<open>page.isClosed()\<close> nor a close call throws, then the page is
  closed once when it is held and is not closed already, the context is closed once
  when it is held, and the browser is closed once when it is held.  (A close call that
  throws ends the \<open>finally\<close> block, and the closes after it are not made.)
\<close>

theorem browser_closed:
  "(case tryBlock G u p info s of
      ((outcome, h), s2) \<Rightarrow>
        h = (let launch = browser_op G Launch (fst s);
                 context = browser_op G NewContext (snd launch);
                 stealth = browser_op G ApplyStealth (snd context);
                 page = browser_op G NewPage (snd stealth)
             in \<lparr>h_browser = fst launch,
                 h_context = (fst launch \<and> fst context),
                 h_page = (fst launch \<and> fst context \<and> fst stealth \<and> fst page)\<rparr>)
        \<and> loginAndGetSession G u p info s =
          ((case outcome of Continue r \<Rightarrow> Some r | Throw \<Rightarrow> None | Return_null \<Rightarrow> None),
           closeAll G h s2)
        \<and> filter is_close (new_calls s s2) = []
        \<and> subseq (filter is_close (new_calls s (snd (loginAndGetSession G u p info s))))
             [Browser PageClose, Browser ContextClose, Browser BrowserClose]
        \<and> ((\<forall>w. fst (page_isClosed G w) \<noteq> None) \<and>
            (\<forall>b w. is_close (Browser b) \<longrightarrow> fst (browser_op G b w)) \<longrightarrow>
            filter is_close (new_calls s (snd (loginAndGetSession G u p info s))) =
              (if h_page h \<and> fst (page_isClosed G (fst s2)) = Some False
               then [Browser PageClose] else [])
              @ (if h_context h then [Browser ContextClose] else [])
              @ (if h_browser h then [Browser BrowserClose] else [])))"
proof -
  obtain outcome h s2 where t: "tryBlock G u p info s = ((outcome, h), s2)"
    by (cases "tryBlock G u p info s") auto
  have hs: "h = (let launch = browser_op G Launch (fst s);
                 context = browser_op G NewContext (snd launch);
                 stealth = browser_op G ApplyStealth (snd context);
                 page = browser_op G NewPage (snd stealth)
             in \<lparr>h_browser = fst launch,
                 h_context = (fst launch \<and> fst context),
                 h_page = (fst launch \<and> fst context \<and> fst stealth \<and> fst page)\<rparr>)"
    using tryBlock_handles [of G u p info s] startBrowser_handles [of G s] t by simp
  have r: "loginAndGetSession G u p info s =
          ((case outcome of Continue r \<Rightarrow> Some r | Throw \<Rightarrow> None | Return_null \<Rightarrow> None),
           closeAll G h s2)"
    using t by (simp add: loginAndGetSession_def split: step.splits)
  have n: "filter is_close (new_calls s s2) = []"
    using tryBlock_no_close [of s G u p info] t by simp
  have eq: "filter is_close (new_calls s (snd (loginAndGetSession G u p info s)))
              = filter is_close (new_calls s2 (closeAll G h s2))"
    using run_close_calls [of s G u p info] t r by simp
  obtain cs where cs: "snd (closeAll G h s2) = snd s2 @ cs"
    "subseq (filter is_close cs) [Browser PageClose, Browser ContextClose, Browser BrowserClose]"
    using closeAll_trace by blast
  have sub: "subseq (filter is_close (new_calls s (snd (loginAndGetSession G u p info s))))
             [Browser PageClose, Browser ContextClose, Browser BrowserClose]"
    using eq cs by (simp add: new_calls_append)
  have full: "(\<forall>w. fst (page_isClosed G w) \<noteq> None) \<and>
            (\<forall>b w. is_close (Browser b) \<longrightarrow> fst (browser_op G b w)) \<longrightarrow>
            filter is_close (new_calls s (snd (loginAndGetSession G u p info s))) =
              (if h_page h \<and> fst (page_isClosed G (fst s2)) = Some False
               then [Browser PageClose] else [])
              @ (if h_context h then [Browser ContextClose] else [])
              @ (if h_browser h then [Browser BrowserClose] else [])"
    using closeAll_complete [of G s2 h] eq by simp
  from hs r n sub full show ?thesis
    unfolding t by (simp only: prod.case simp_thms)
qed

theorem browser_closed_witness:
  "(\<forall>b w. fst (browser_op steady b w)) \<and>
   (\<forall>b w. fst (browser_op (failing Goto) b w) = (b \<noteq> Goto)) \<and>
   (\<forall>b w. fst (browser_op (failing NewContext) b w) = (b \<noteq> NewContext)) \<and>
   (\<forall>b w. fst (browser_op (failing Launch) b w) = (b \<noteq> Launch)) \<and>
   fst (loginAndGetSession steady (ascii ''alice'') (ascii ''pw'') None (script1, [])) \<noteq> None \<and>
   filter is_close (new_calls (script1, [])
       (snd (loginAndGetSession steady (ascii ''alice'') (ascii ''pw'') None (script1, []))))
     = [Browser PageClose, Browser ContextClose, Browser BrowserClose] \<and>
   fst (loginAndGetSession steady (ascii ''alice'') (ascii ''pw'') None
          (script1\<lparr>sc_refused := [ascii ''alice'']\<rparr>, [])) = None \<and>
   filter is_close (new_calls (script1\<lparr>sc_refused := [ascii ''alice'']\<rparr>, [])
       (snd (loginAndGetSession steady (ascii ''alice'') (ascii ''pw'') None
               (script1\<lparr>sc_refused := [ascii ''alice'']\<rparr>, []))))
     = [Browser PageClose, Browser ContextClose, Browser BrowserClose] \<and>
   fst (loginAndGetSession steady (ascii ''alice'') (ascii ''pw'') None
          (script1\<lparr>sc_cookies := None\<rparr>, [])) = None \<and>
   filter is_close (new_calls (script1\<lparr>sc_cookies := None\<rparr>, [])
       (snd (loginAndGetSession steady (ascii ''alice'') (ascii ''pw'') None
               (script1\<lparr>sc_cookies := None\<rparr>, []))))
     = [Browser PageClose, Browser ContextClose, Browser BrowserClose] \<and>
   fst (loginAndGetSession (failing Goto) (ascii ''alice'') (ascii ''pw'') None (script1, [])) = None \<and>
   new_calls (script1, [])
       (snd (loginAndGetSession (failing Goto) (ascii ''alice'') (ascii ''pw'') None (script1, [])))
     = [Browser Launch, Browser NewContext, Browser ApplyStealth, Browser NewPage, Browser Goto,
        PageIsClosed, Browser PageClose, Browser ContextClose, Browser BrowserClose] \<and>
   filter is_close (new_calls (script1, [])
       (snd (loginAndGetSession (failing NewContext) (ascii ''alice'') (ascii ''pw'') None
               (script1, []))))
     = [Browser BrowserClose] \<and>
   filter is_close (new_calls (script1, [])
       (snd (loginAndGetSession (failing Launch) (ascii ''alice'') (ascii ''pw'') None
               (script1, []))))
     = []"
proof -
  have ops: "\<forall>b w. fst (browser_op steady b w)"
    "\<forall>b w. fst (browser_op (failing Goto) b w) = (b \<noteq> Goto)"
    "\<forall>b w. fst (browser_op (failing NewContext) b w) = (b \<noteq> NewContext)"
    "\<forall>b w. fst (browser_op (failing Launch) b w) = (b \<noteq> Launch)"
    by (simp_all add: steady_def failing_def scripted_def)
  have pc: "\<And>w. fst (page_isClosed steady w) = Some False"
    "\<And>b w. fst (page_isClosed (failing b) w) = Some False"
    by (simp_all add: steady_def failing_def scripted_def)
  have snds: "\<And>b w. snd (browser_op steady b w) = w"
    "\<And>c b w. snd (browser_op (failing c) b w) = w"
    by (simp_all add: steady_def failing_def scripted_def)
  have gen: "filter is_close (new_calls s (snd (loginAndGetSession G u p None s))) =
        (if fst (browser_op G Launch (fst s)) \<and> fst (browser_op G NewContext (fst s))
            \<and> fst (browser_op G ApplyStealth (fst s)) \<and> fst (browser_op G NewPage (fst s))
         then [Browser PageClose] else [])
        @ (if fst (browser_op G Launch (fst s)) \<and> fst (browser_op G NewContext (fst s))
           then [Browser ContextClose] else [])
        @ (if fst (browser_op G Launch (fst s)) then [Browser BrowserClose] else [])"
    if "\<And>w. fst (page_isClosed G w) = Some False"
      and "\<And>b w. is_close (Browser b) \<Longrightarrow> fst (browser_op G b w)"
      and "\<And>b w. snd (browser_op G b w) = w"
    for G :: "script gateway" and s u p
  proof -
    obtain outcome h s2 where t: "tryBlock G u p None s = ((outcome, h), s2)"
      by (cases "tryBlock G u p None s") auto
    note bc = browser_closed [where G = G and u = u and p = p and info = None and s = s,
                              unfolded t prod.case Let_def that(3)]
    have nn: "\<forall>w. fst (page_isClosed G w) \<noteq> None"
      using that(1) by simp
    have cl: "\<forall>b w. is_close (Browser b) \<longrightarrow> fst (browser_op G b w)"
      using that(2) by blast
    from bc have hh: "h = \<lparr>h_browser = fst (browser_op G Launch (fst s)),
               h_context = (fst (browser_op G Launch (fst s)) \<and> fst (browser_op G NewContext (fst s))),
               h_page = (fst (browser_op G Launch (fst s)) \<and> fst (browser_op G NewContext (fst s))
                  \<and> fst (browser_op G ApplyStealth (fst s)) \<and> fst (browser_op G NewPage (fst s)))\<rparr>"
      by blast
    from bc nn cl
    have "filter is_close (new_calls s (snd (loginAndGetSession G u p None s))) =
              (if h_page h \<and> fst (page_isClosed G (fst s2)) = Some False
               then [Browser PageClose] else [])
              @ (if h_context h then [Browser ContextClose] else [])
              @ (if h_browser h then [Browser BrowserClose] else [])"
      by blast
    then have "filter is_close (new_calls s (snd (loginAndGetSession G u p None s))) =
              (if h_page h then [Browser PageClose] else [])
              @ (if h_context h then [Browser ContextClose] else [])
              @ (if h_browser h then [Browser BrowserClose] else [])"
      by (simp add: that(1))
    with hh show ?thesis by simp
  qed
  have c1: "\<And>b w. is_close (Browser b) \<Longrightarrow> fst (browser_op steady b w)"
    using ops(1) by simp
  have c2: "\<And>b w. is_close (Browser b) \<Longrightarrow> fst (browser_op (failing Goto) b w)"
    "\<And>b w. is_close (Browser b) \<Longrightarrow> fst (browser_op (failing NewContext) b w)"
    "\<And>b w. is_close (Browser b) \<Longrightarrow> fst (browser_op (failing Launch) b w)"
    using ops(2,3,4) by auto
  let ?all = "[Browser PageClose, Browser ContextClose, Browser BrowserClose]"
  have a: "filter is_close (new_calls (script1, [])
          (snd (loginAndGetSession steady (ascii ''alice'') (ascii ''pw'') None (script1, [])))) = ?all"
    using gen [where G = steady and s = "(script1, [])" and u = "ascii ''alice''"
                 and p = "ascii ''pw''", OF pc(1) c1 snds(1)] ops(1)
    by simp
  have b: "filter is_close (new_calls (script1\<lparr>sc_refused := [ascii ''alice'']\<rparr>, [])
          (snd (loginAndGetSession steady (ascii ''alice'') (ascii ''pw'') None
                  (script1\<lparr>sc_refused := [ascii ''alice'']\<rparr>, [])))) = ?all"
    using gen [where G = steady and s = "(script1\<lparr>sc_refused := [ascii ''alice'']\<rparr>, [])"
                 and u = "ascii ''alice''" and p = "ascii ''pw''", OF pc(1) c1 snds(1)] ops(1)
    by simp
  have c: "filter is_close (new_calls (script1\<lparr>sc_cookies := None\<rparr>, [])
          (snd (loginAndGetSession steady (ascii ''alice'') (ascii ''pw'') None
                  (script1\<lparr>sc_cookies := None\<rparr>, [])))) = ?all"
    using gen [where G = steady and s = "(script1\<lparr>sc_cookies := None\<rparr>, [])"
                 and u = "ascii ''alice''" and p = "ascii ''pw''", OF pc(1) c1 snds(1)] ops(1)
    by simp
  have d: "filter is_close (new_calls (script1, [])
       (snd (loginAndGetSession (failing NewContext) (ascii ''alice'') (ascii ''pw'') None
               (script1, [])))) = [Browser BrowserClose]"
    using gen [where G = "failing NewContext" and s = "(script1, [])" and u = "ascii ''alice''"
                 and p = "ascii ''pw''", OF pc(2) c2(2) snds(2)] ops(3)
    by simp
  have e: "filter is_close (new_calls (script1, [])
       (snd (loginAndGetSession (failing Launch) (ascii ''alice'') (ascii ''pw'') None
               (script1, [])))) = []"
    using gen [where G = "failing Launch" and s = "(script1, [])" and u = "ascii ''alice''"
                 and p = "ascii ''pw''", OF pc(2) c2(3) snds(2)] ops(4)
    by simp
  have res: "fst (loginAndGetSession steady (ascii ''alice'') (ascii ''pw'') None (script1, [])) \<noteq> None"
    "fst (loginAndGetSession steady (ascii ''alice'') (ascii ''pw'') None
          (script1\<lparr>sc_refused := [ascii ''alice'']\<rparr>, [])) = None"
    "fst (loginAndGetSession steady (ascii ''alice'') (ascii ''pw'') None
          (script1\<lparr>sc_cookies := None\<rparr>, [])) = None"
    by (simp_all add: run_defs steady_def)
  have goto: "fst (loginAndGetSession (failing Goto) (ascii ''alice'') (ascii ''pw'') None (script1, [])) = None"
    "new_calls (script1, [])
       (snd (loginAndGetSession (failing Goto) (ascii ''alice'') (ascii ''pw'') None (script1, [])))
     = [Browser Launch, Browser NewContext, Browser ApplyStealth, Browser NewPage, Browser Goto,
        PageIsClosed, Browser PageClose, Browser ContextClose, Browser BrowserClose]"
    by (simp_all add: run_defs failing_def new_calls_def)
  from ops a b c d e res goto show ?thesis by blast
qed

text \<open>
  Claim C10 as stated fails: when \<open>page.close()\<close> throws, the run returns its session,
  the browser and the context that were opened at its start are never closed.
\<close>

theorem close_throws_counterexample:
  "(case loginAndGetSession scripted (ascii ''alice'') (ascii ''pw'') None
           (script1\<lparr>sc_page_close := False\<rparr>, []) of
      (result, s) \<Rightarrow>
        result \<noteq> None \<and>
        take 4 (snd s) = [Browser Launch, Browser NewContext, Browser ApplyStealth, Browser NewPage] \<and>
        filter is_close (snd s) = [Browser PageClose])"
  by (simp add: run_defs)

section \<open>The batch of accounts\<close>

lemma closeAll_plain: "calls_only plain_call s (closeAll G h s)"
proof -
  obtain cs where cs: "snd (closeAll G h s) = snd s @ cs"
    "list_all (\<lambda>c. is_close c \<or> c = PageIsClosed) cs"
    using closeAll_trace by blast
  have "\<And>c. is_close c \<or> c = PageIsClosed \<Longrightarrow> plain_call c"
  proof -
    fix c assume "is_close c \<or> c = PageIsClosed"
    then show "plain_call c" by (cases c) auto
  qed
  then have "list_all plain_call cs"
    using cs(2) by (simp add: list_all_iff)
  with cs(1) show ?thesis by (auto simp: calls_only_iff)
qed

lemma body_call_plain: "body_call None c \<Longrightarrow> plain_call c"
  by (cases c) auto

lemma run_plain: "calls_only plain_call s (snd (loginAndGetSession G u p None s))"
proof -
  have "calls_only plain_call s (snd (tryBlock G u p None s))"
    using tryBlock_calls [of None s G u p] by (rule calls_only_mono) (rule body_call_plain)
  moreover have "calls_only plain_call (snd (tryBlock G u p None s))
                   (closeAll G (snd (fst (tryBlock G u p None s))) (snd (tryBlock G u p None s)))"
    by (rule closeAll_plain)
  ultimately show ?thesis
    unfolding run_state by (rule calls_only_trans)
qed

lemma processAccounts_plain:
  "calls_only plain_call s (snd (processAccounts G accounts s))"
proof (induction accounts arbitrary: s)
  case Nil
  show ?case by simp
next
  case (Cons a accounts)
  let ?s1 = "snd (loginAndGetSession G (acc_username a) (acc_password a) None s)"
  have "calls_only plain_call s ?s1" by (rule run_plain)
  moreover have "calls_only plain_call ?s1 (snd (processAccounts G accounts ?s1))"
    by (rule Cons.IH)
  ultimately show ?case
    by (auto simp: split_beta intro: calls_only_trans)
qed

lemma processAccounts_ignores_tokens:
  "processAccounts G (map (\<lambda>a. a\<lparr>acc_tokens := f a\<rparr>) accounts) s = processAccounts G accounts s"
  by (induction accounts arbitrary: s) (simp_all add: split_beta)

lemma processAccounts_append:
  "processAccounts G (xs @ ys) s =
     (case processAccounts G xs s of
        (rx, s1) \<Rightarrow> (case processAccounts G ys s1 of (ry, s2) \<Rightarrow> (rx @ ry, s2)))"
  by (induction xs arbitrary: s) (simp_all add: split_beta)

lemma processAccounts_usernames:
  "map res_username (fst (processAccounts G accounts s)) = map acc_username accounts"
  by (induction accounts arbitrary: s) (simp_all add: split_beta)

lemma processAccounts_success:
  "list_all (\<lambda>r. res_success r = (res_data r \<noteq> None)) (fst (processAccounts G accounts s))"
  by (induction accounts arbitrary: s) (simp_all add: split_beta)

text \<open>
  Claim C2, as amended.  The batch runner calls the run of an account with its user name
  and password only: the \<open>tokens\<close> of an entry are not passed on, and changing them
  changes nothing.  Each run of a batch therefore goes through the browser start, the
  login, the sign-in, the user data, the transfer of the reward and the fetch of the
  token list with its fallback creation, and makes no delete call, no update call, no
  create call other than the fallback one, and no upload.
\<close>

theorem batch_ignores_tokens:
  "processAccounts G (account # rest) s =
     (case loginAndGetSession G (acc_username account) (acc_password account) None s of
        (result, s1) \<Rightarrow>
          (case processAccounts G rest s1 of
             (results, s2) \<Rightarrow>
               (\<lparr>res_username = acc_username account, res_success = (result \<noteq> None),
                 res_data = result\<rparr> # results, s2)))
   \<and> processAccounts G (map (\<lambda>a. a\<lparr>acc_tokens := f a\<rparr>) accounts) s = processAccounts G accounts s
   \<and> calls_only plain_call s (snd (processAccounts G accounts s))"
  using processAccounts_ignores_tokens [of G f accounts s] processAccounts_plain [of s G accounts]
  by simp

theorem batch_ignores_tokens_witness:
  "acc_tokens account2 = Some [config_delete] \<and>
   processAccounts scripted [account2] (script1, []) =
     processAccounts scripted [account2\<lparr>acc_tokens := None\<rparr>] (script1, []) \<and>
   map res_success (fst (processAccounts scripted [account2] (script1, []))) = [True] \<and>
   snd (snd (processAccounts scripted [account2] (script1, []))) =
     [Browser Launch, Browser NewContext, Browser ApplyStealth, Browser NewPage, Browser Goto,
      Login (ascii ''bob'') (ascii ''pw''), Cookies, SignIn (IdNum 7), UserSelf (IdNum 7),
      AffTransfer (IdNum 7) 200, TokenList (IdNum 7),
      PageIsClosed, Browser PageClose, Browser ContextClose, Browser BrowserClose]"
proof -
  have t: "acc_tokens account2 = Some [config_delete]"
    by (simp add: account2_def)
  have e: "processAccounts scripted [account2] (script1, []) =
             processAccounts scripted [account2\<lparr>acc_tokens := None\<rparr>] (script1, [])"
    using batch_ignores_tokens [of scripted account2 "[]" "(script1, [])" "\<lambda>a. None" "[account2]"]
    by simp
  have r: "map res_success (fst (processAccounts scripted [account2] (script1, []))) = [True]"
    "snd (snd (processAccounts scripted [account2] (script1, []))) =
     [Browser Launch, Browser NewContext, Browser ApplyStealth, Browser NewPage, Browser Goto,
      Login (ascii ''bob'') (ascii ''pw''), Cookies, SignIn (IdNum 7), UserSelf (IdNum 7),
      AffTransfer (IdNum 7) 200, TokenList (IdNum 7),
      PageIsClosed, Browser PageClose, Browser ContextClose, Browser BrowserClose]"
    by (simp_all add: run_defs account2_def)
  from t e r show ?thesis by blast
qed

text \<open>
  Claim C2 as stated fails: the entry of the account carries a token to delete, the run
  succeeds, and no delete call is made.
\<close>

theorem batch_no_delete_counterexample:
  "acc_tokens account2 = Some [config_delete] \<and>
   truthy_id (cfg_id config_delete) \<and> truthy_bool (cfg_is_deleted config_delete) \<and>
   map res_success (fst (processAccounts scripted [account2] (script1, []))) = [True] \<and>
   filter is_delete (snd (snd (processAccounts scripted [account2] (script1, [])))) = []"
  by (simp add: run_defs account2_def config_delete_def)

text \<open>
  Claim C9.  The batch runner returns one entry per account, in the order of the
  accounts, each with the user name of its account and with \<open>success\<close> true exactly when
  the run of that account did not return null.  The entry of an account is made from
  the result of its own run alone; a run that fails does not end the batch: the
  accounts before and after it are processed as they are without it in between, each
  from the state the previous run left.
\<close>

theorem batch_results:
  "length (fst (processAccounts G accounts s)) = length accounts
   \<and> map res_username (fst (processAccounts G accounts s)) = map acc_username accounts
   \<and> list_all (\<lambda>r. res_success r = (res_data r \<noteq> None)) (fst (processAccounts G accounts s))
   \<and> processAccounts G (before @ account # after) s =
       (case processAccounts G before s of
          (rb, s1) \<Rightarrow>
            (case loginAndGetSession G (acc_username account) (acc_password account) None s1 of
               (result, s2) \<Rightarrow>
                 (case processAccounts G after s2 of
                    (ra, s3) \<Rightarrow>
                      (rb @ \<lparr>res_username = acc_username account,
                              res_success = (result \<noteq> None),
                              res_data = result\<rparr> # ra, s3))))"
proof -
  have "length (map res_username (fst (processAccounts G accounts s)))
          = length (map acc_username accounts)"
    by (simp only: processAccounts_usernames)
  then have len: "length (fst (processAccounts G accounts s)) = length accounts"
    by simp
  show ?thesis
    using len processAccounts_usernames [of G accounts s] processAccounts_success [of G accounts s]
    by (simp add: processAccounts_append split_beta)
qed

theorem batch_results_witness:
  "map res_username
     (fst (processAccounts scripted [account1, account2, account3]
             (script1\<lparr>sc_refused := [ascii ''bob'']\<rparr>, [])))
     = [ascii ''alice'', ascii ''bob'', ascii ''carol'']
   \<and> map res_success
     (fst (processAccounts scripted [account1, account2, account3]
             (script1\<lparr>sc_refused := [ascii ''bob'']\<rparr>, [])))
     = [True, False, True]"
proof -
  have u: "map acc_username [account1, account2, account3]
             = [ascii ''alice'', ascii ''bob'', ascii ''carol'']"
    by (simp add: account1_def account2_def account3_def)
  have r: "map res_success
     (fst (processAccounts scripted [account1, account2, account3]
             (script1\<lparr>sc_refused := [ascii ''bob'']\<rparr>, [])))
     = [True, False, True]"
    by (simp add: run_defs account1_def account2_def account3_def)
  show ?thesis
    using batch_results [of scripted "[account1, account2, account3]"
            "(script1\<lparr>sc_refused := [ascii ''bob'']\<rparr>, [])" "[]" account1 "[]"] u r
    by simp
qed

section \<open>More than 100 tokens for sale\<close>

lemma manageTokens_sales:
  assumes "sc_create w = Fetch_response 200 True ()"
  shows "manageTokens scripted a (replicate n config_sale) (p, (w, tr)) =
           (p @ replicate n pending1,
            (w, tr @ replicate n (TokenCreate a (requestBody (create_config_of config_sale)))))"
proof (induction n arbitrary: p tr)
  case 0
  show ?case by simp
next
  case (Suc n)
  have step: "manageToken scripted a config_sale (p, (w, tr)) =
                (p @ [pending1], (w, tr @ [TokenCreate a (requestBody (create_config_of config_sale))]))"
    using assms
    by (simp add: manageToken_def createToken_def perform_def scripted_def config_sale_def
          config_blank_def pending1_def sell_prefix_def)
  show ?case
    by (simp add: step Suc.IH)
qed

lemma keysToUpload_sales:
  assumes "ai_id info = Some (ascii ''acc1'')" and "ai_username info = Some (ascii ''alice'')"
  shows "keysToUpload info [token1] (replicate n pending1) = replicate n key1"
proof -
  have "keyToUpload info [token1] pending1 = [key1]"
    using assms
    by (simp add: keyToUpload_def token1_def pending1_def key1_def ascii_def)
  then show ?thesis
    by (induction n) (simp_all add: keysToUpload_def)
qed

lemma scripted_simps:
  "browser_op scripted = (\<lambda>op w. (if op = PageClose then sc_page_close w else True, w))"
  "page_isClosed scripted = (\<lambda>w. (Some False, w))"
  "context_cookies scripted = (\<lambda>w. (sc_cookies w, w))"
  "api_login scripted = (\<lambda>username password w.
     (if username \<in> set (sc_refused w) then Fetch_response 401 False None else sc_login w, w))"
  "api_sign_in scripted = (\<lambda>apiUser w. (Fetch_response 200 True (), w))"
  "api_self scripted = (\<lambda>apiUser w. (sc_self w, w))"
  "api_aff_transfer scripted = (\<lambda>apiUser affQuota w. (sc_transfer w, w))"
  "api_token_list scripted = (\<lambda>apiUser w.
     (case sc_token_lists w of
        [] \<Rightarrow> (Fetch_response 200 True (Some []), w)
      | r # rs \<Rightarrow> (r, w\<lparr>sc_token_lists := rs\<rparr>)))"
  "api_token_update scripted = (\<lambda>apiUser tokenData w. (sc_update w, w))"
  "inventory_post scripted = (\<lambda>items w. (sc_post w, w))"
  by (simp_all add: scripted_def)

lemmas run_blocks = loginAndGetSession_def tryBlock_def startBrowser_def loginSteps_def
      establishSession_def processUserInfo_def transferAffQuota_def fetchTokens_def
      uploadSellTokens_def closeAll_def getTokens_def addKeys_def
      perform_def script1_def user1_def response_ok_def ascii_def

lemma config_sale_no_supplement: "\<not> wants_supplement config_sale"
  by (simp add: wants_supplement_def config_sale_def config_blank_def)

lemma body_call_carried: "body_call info c \<Longrightarrow> is_addKeys c \<or> keys_carried c \<le> 100"
  by (cases c) auto

lemma closeAll_carried:
  "calls_only (\<lambda>c. is_addKeys c \<or> keys_carried c \<le> 100) s (closeAll G h s)"
proof -
  have "calls_only plain_call s (closeAll G h s)"
    by (rule closeAll_plain)
  then show ?thesis
  proof (rule calls_only_mono)
    fix c assume "plain_call c"
    then show "is_addKeys c \<or> keys_carried c \<le> 100" by (cases c) auto
  qed
qed

lemma run_carried:
  "calls_only (\<lambda>c. is_addKeys c \<or> keys_carried c \<le> 100) s
     (snd (loginAndGetSession G u p info s))"
proof -
  have "calls_only (\<lambda>c. is_addKeys c \<or> keys_carried c \<le> 100) s (snd (tryBlock G u p info s))"
    using tryBlock_calls [of info s G u p] by (rule calls_only_mono) (rule body_call_carried)
  moreover have "calls_only (\<lambda>c. is_addKeys c \<or> keys_carried c \<le> 100)
                   (snd (tryBlock G u p info s))
                   (closeAll G (snd (fst (tryBlock G u p info s))) (snd (tryBlock G u p info s)))"
    by (rule closeAll_carried)
  ultimately show ?thesis
    unfolding run_state by (rule calls_only_trans)
qed

text \<open>
  Claim C8, as amended.  The upload is never split: the upload block calls \<open>addKeys\<close>
  at most once, with all the records, however many they are.  \<open>addKeys\<close> itself refuses
  a list of more than 100 keys without posting anything, so in a whole run every request
  posted to the inventory carries at most 100 records.
\<close>

theorem upload_single_call:
  "filter is_addKeys (new_calls s (snd (uploadSellTokens G accountInfo pending tokens s))) =
     (case accountInfo of
        None \<Rightarrow> []
      | Some info \<Rightarrow>
          if keysToUpload info tokens pending = [] then []
          else [AddKeys (keysToUpload info tokens pending)])
   \<and> (100 < length keys \<longrightarrow>
        addKeys G keys s = (Some (Add_invalid Too_many_keys), (fst s, snd s @ [AddKeys keys])))
   \<and> calls_only (\<lambda>c. is_addKeys c \<or> keys_carried c \<le> 100) s
        (snd (loginAndGetSession G u p accountInfo s))"
  using uploadSellTokens_addKeys [of s G accountInfo pending tokens]
        addKeys_too_many [of keys G s] run_carried [of s G u p accountInfo]
  by blast

theorem upload_single_call_witness:
  "100 < length (replicate 101 key1) \<and>
   addKeys scripted (replicate 101 key1) (script1, []) =
     (Some (Add_invalid Too_many_keys), (script1, [AddKeys (replicate 101 key1)])) \<and>
   filter is_addKeys (new_calls (script1, [])
      (snd (uploadSellTokens scripted (Some info1) (replicate 101 pending1) [token1] (script1, []))))
     = [AddKeys (replicate 101 key1)]"
proof -
  have l: "100 < length (replicate 101 key1)"
    by simp
  have k: "keysToUpload info1 [token1] (replicate 101 pending1) = replicate 101 key1"
    by (rule keysToUpload_sales) (simp_all add: info1_def)
  have n: "replicate 101 key1 \<noteq> []"
    by simp
  show ?thesis
    using upload_single_call [of "(script1, [])" scripted "Some info1" "replicate 101 pending1"
            "[token1]" "replicate 101 key1" "ascii ''alice''" "ascii ''pw''"] l k n
    by simp
qed

text \<open>
  Claim C8 as stated fails: with 101 configured sale tokens that are created and matched,
  \<open>addKeys\<close> is called once, with 101 records.
\<close>

theorem many_sales_counterexample:
  "(case loginAndGetSession scripted (ascii ''alice'') (ascii ''pw'')
           (Some (info1\<lparr>ai_tokens := Some (replicate 101 config_sale)\<rparr>)) (script1, []) of
      (result, s) \<Rightarrow>
        result \<noteq> None \<and>
        filter is_addKeys (snd s) = [AddKeys (replicate 101 key1)] \<and>
        map keys_carried (filter is_addKeys (snd s)) = [101])"
  by (simp add: run_blocks scripted_simps manageTokens_sales keysToUpload_sales
        config_sale_no_supplement info1_def
        del: replicate.simps)

section \<open>The returned user id\<close>

text \<open>The run returns the user id as a string: the id 7 of the login comes back as \<open>7\<close>.\<close>

lemma returned_apiUser:
  "jsString (IdNum 7) = ascii ''7'' \<and> jsString (IdNum (- 120)) = ascii ''-120'' \<and>
   jsString (IdStr (ascii ''u1'')) = ascii ''u1'' \<and>
   map_option ls_apiUser
     (fst (loginAndGetSession scripted (ascii ''alice'') (ascii ''pw'') None (script1, [])))
     = Some (ascii ''7'')"
  by (simp add: run_defs)


end
